theory Spec2Isabelle
  imports Complex_Main
begin

section \<open>Holt-Winters triple exponential smoothing (HoltWintersDemo.js)\<close>

text \<open>
  The development embeds the function \<open>holtWinters\<close> of
  \<^verbatim>\<open>src/HoltWintersDemo.js\<close>: seasonal initialisation, normalisation, the
  level/trend/seasonal recurrence and the forecast projection.
\<close>

subsection \<open>JavaScript numbers\<close>

text \<open>
  A JavaScript number is an IEEE-754 double. The model keeps the special values of the
  format that decide what the program does on a division by zero or on a missing array
  element (\<open>NaN\<close>, the two infinities and the negative zero). The operations
  \<open>jadd\<close>, \<open>jsub\<close>, \<open>jmul\<close> and \<open>jdiv\<close> below give the exact result of an
  operation on finite values, a real number; the rounding of that result to a double is
  the separate function \<open>dbl\<close> of the next subsection. The embedding of the whole
  function uses the exact operations: its theorems are statements of exact arithmetic, or
  statements that rounding does not touch (the shape of the output, the propagation of
  \<open>NaN\<close>, the errors). \<open>Fin 0\<close> is the positive zero.
\<close>

datatype jsnum = Fin real | NegZero | PInf | NInf | NaN

text \<open>The sign bit.\<close>

fun negative :: "jsnum \<Rightarrow> bool" where
  "negative (Fin r) = (r < 0)"
| "negative NegZero = True"
| "negative PInf = False"
| "negative NInf = True"
| "negative NaN = False"

fun is_zero :: "jsnum \<Rightarrow> bool" where
  "is_zero (Fin r) = (r = 0)"
| "is_zero NegZero = True"
| "is_zero PInf = False"
| "is_zero NInf = False"
| "is_zero NaN = False"

fun is_inf :: "jsnum \<Rightarrow> bool" where
  "is_inf (Fin r) = False"
| "is_inf NegZero = False"
| "is_inf PInf = True"
| "is_inf NInf = True"
| "is_inf NaN = False"

fun is_fin :: "jsnum \<Rightarrow> bool" where
  "is_fin (Fin r) = True"
| "is_fin NegZero = True"
| "is_fin PInf = False"
| "is_fin NInf = False"
| "is_fin NaN = False"

text \<open>The real number a finite value stands for (both zeros stand for 0).\<close>

fun rv :: "jsnum \<Rightarrow> real" where
  "rv (Fin r) = r"
| "rv NegZero = 0"
| "rv PInf = 0"
| "rv NInf = 0"
| "rv NaN = 0"

definition signed_zero :: "bool \<Rightarrow> jsnum" where
  "signed_zero neg = (if neg then NegZero else Fin 0)"

definition signed_inf :: "bool \<Rightarrow> jsnum" where
  "signed_inf neg = (if neg then NInf else PInf)"

text \<open>
  Addition: \<open>NaN\<close> is absorbing, opposite infinities give \<open>NaN\<close>, the sum of two
  negative zeros is the negative zero, every other zero sum is the positive zero.
\<close>

fun jadd :: "jsnum \<Rightarrow> jsnum \<Rightarrow> jsnum" where
  "jadd NaN y = NaN"
| "jadd x NaN = NaN"
| "jadd PInf NInf = NaN"
| "jadd NInf PInf = NaN"
| "jadd PInf y = PInf"
| "jadd x PInf = PInf"
| "jadd NInf y = NInf"
| "jadd x NInf = NInf"
| "jadd NegZero y = y"
| "jadd x NegZero = x"
| "jadd (Fin a) (Fin b) = Fin (a + b)"

fun jneg :: "jsnum \<Rightarrow> jsnum" where
  "jneg (Fin r) = (if r = 0 then NegZero else Fin (- r))"
| "jneg NegZero = Fin 0"
| "jneg PInf = NInf"
| "jneg NInf = PInf"
| "jneg NaN = NaN"

definition jsub :: "jsnum \<Rightarrow> jsnum \<Rightarrow> jsnum" where
  "jsub x y = jadd x (jneg y)"

text \<open>
  Multiplication and division: the sign of the result is the exclusive or of the signs
  of the operands; \<open>0 * Infinity\<close>, \<open>0 / 0\<close> and \<open>Infinity / Infinity\<close> are
  \<open>NaN\<close>; a nonzero value divided by a zero is an infinity. No exception is raised.
\<close>

definition jmul :: "jsnum \<Rightarrow> jsnum \<Rightarrow> jsnum" where
  "jmul x y =
     (if x = NaN \<or> y = NaN then NaN
      else if (is_zero x \<and> is_inf y) \<or> (is_inf x \<and> is_zero y) then NaN
      else if is_inf x \<or> is_inf y then signed_inf (negative x \<noteq> negative y)
      else if is_zero x \<or> is_zero y then signed_zero (negative x \<noteq> negative y)
      else Fin (rv x * rv y))"

definition jdiv :: "jsnum \<Rightarrow> jsnum \<Rightarrow> jsnum" where
  "jdiv x y =
     (if x = NaN \<or> y = NaN then NaN
      else if (is_inf x \<and> is_inf y) \<or> (is_zero x \<and> is_zero y) then NaN
      else if is_inf x \<or> is_zero y then signed_inf (negative x \<noteq> negative y)
      else if is_inf y \<or> is_zero x then signed_zero (negative x \<noteq> negative y)
      else Fin (rv x / rv y))"

text \<open>
  An array read \<open>xs[i]\<close>. Out of range the read yields \<open>undefined\<close>, which the
  program only ever feeds to arithmetic, where it converts to \<open>NaN\<close>.
\<close>

definition idx :: "jsnum list \<Rightarrow> nat \<Rightarrow> jsnum" where
  "idx xs i = (if i < length xs then xs ! i else NaN)"

subsection \<open>Rounding to a double\<close>

text \<open>
  The arithmetic above is exact. The arithmetic of the program rounds every finite result
  to the nearest double, ties to the even significand, and overflows to an infinity:
  \<open>dbl\<close> maps the exact result of an operation to the double the operation returns.
  In \<open>to_double\<close> the magnitude is counted in units of the least subnormal,
  \<open>2^-1074\<close>; the quantum of a value with \<open>2^e \<le> y < 2^(e + 1)\<close> units is
  \<open>2^(e - 52)\<close> units, and one unit below the normal range; a result of \<open>2^1024\<close>
  or more is an overflow, and a nonzero value that rounds to zero keeps its sign.
\<close>

definition round_even :: "real \<Rightarrow> int" where
  "round_even r =
     (let f = \<lfloor>r\<rfloor>; d = r - of_int f
      in if d < 1 / 2 then f else if 1 / 2 < d then f + 1 else if even f then f else f + 1)"

definition log2_floor :: "real \<Rightarrow> nat" where
  "log2_floor y =
     fold (\<lambda>b e. if 2 ^ (e + b) \<le> y then e + b else e)
       [2048, 1024, 512, 256, 128, 64, 32, 16, 8, 4, 2, 1] 0"

definition to_double :: "real \<Rightarrow> jsnum" where
  "to_double x =
     (if x = 0 then Fin 0
      else let y = \<bar>x\<bar> * 2 ^ 1074;
               q = log2_floor (max y 1) - 52;
               r = of_int (round_even (y / 2 ^ q)) * 2 ^ q / 2 ^ 1074
           in if 2 ^ 1024 \<le> r then signed_inf (x < 0)
              else if r = 0 then signed_zero (x < 0)
              else Fin (if x < 0 then - r else r))"

fun dbl :: "jsnum \<Rightarrow> jsnum" where
  "dbl (Fin r) = to_double r"
| "dbl NegZero = NegZero"
| "dbl PInf = PInf"
| "dbl NInf = NInf"
| "dbl NaN = NaN"

subsection \<open>Data\<close>

text \<open>
  An input record \<open>{month, value}\<close>, and an output record \<open>{month, value, fitted}\<close>.
  The label \<open>month\<close> is never read, only copied by the spread \<^verbatim>\<open>...data[i]\<close>;
  it is \<open>None\<close> when the input record has no such field. The \<open>value\<close> of an
  output record is \<open>None\<close> for the \<open>null\<close> of a forecast.
\<close>

record observation =
  month :: "string option"
  val :: jsnum

record point =
  pmonth :: "string option"
  pval :: "jsnum option"
  fitted :: jsnum

datatype js_error = TypeError | RangeError

text \<open>The decimal digits of a number, for the template literal of the forecast label.\<close>

definition digit_char :: "nat \<Rightarrow> char" where
  "digit_char d = char_of (48 + d)"

fun show_nat :: "nat \<Rightarrow> string" where
  "show_nat k = (if k < 10 then [digit_char k] else show_nat (k div 10) @ [digit_char (k mod 10)])"

declare show_nat.simps [simp del]

subsection \<open>Seasonal initialisation\<close>

text \<open>
  The inner loop \<^verbatim>\<open>for (let j = i; j < n; j += seasonalPeriod)\<close>. It is entered only
  from the body of the loop over \<open>i < seasonalPeriod\<close>, that is with a positive
  period; the guard records that, and makes the recursion terminate.
\<close>

function phase_loop :: "jsnum list \<Rightarrow> nat \<Rightarrow> nat \<Rightarrow> jsnum \<times> nat \<Rightarrow> jsnum \<times> nat" where
  "phase_loop series seasonalPeriod j (sum_acc, count) =
     (if 0 < seasonalPeriod \<and> j < length series
      then phase_loop series seasonalPeriod (j + seasonalPeriod)
             (jadd sum_acc (idx series j), count + 1)
      else (sum_acc, count))"
  by pat_completeness auto
termination
  by (relation "measure (\<lambda>(series, seasonalPeriod, j, acc). length series - j)") auto

declare phase_loop.simps [simp del]

definition phase_average :: "jsnum list \<Rightarrow> nat \<Rightarrow> nat \<Rightarrow> jsnum" where
  "phase_average series seasonalPeriod i =
     (let (sum_acc, count) = phase_loop series seasonalPeriod i (Fin 0, 0)
      in jdiv sum_acc (Fin (real count)))"

text \<open>
  \<^verbatim>\<open>Array(len).fill(0)\<close>. The constructor throws a \<open>RangeError\<close> when \<open>len\<close> is not
  an array length, which for a natural number means \<open>len \<ge> 2^32\<close>.
\<close>

definition new_array :: "nat \<Rightarrow> js_error + jsnum list" where
  "new_array len = (if int len < 2 ^ 32 then Inr (replicate len (Fin 0)) else Inl RangeError)"

text \<open>The loop over \<open>i < seasonalPeriod\<close>: one assignment per phase.\<close>

definition phase_averages :: "jsnum list \<Rightarrow> nat \<Rightarrow> jsnum list \<Rightarrow> jsnum list" where
  "phase_averages series seasonalPeriod seasonals0 =
     fold (\<lambda>i seasonals. seasonals[i := phase_average series seasonalPeriod i])
       [0..<seasonalPeriod] seasonals0"

text \<open>The seasonal table before normalisation, or the error of the array constructor.\<close>

definition raw_seasonals :: "jsnum list \<Rightarrow> nat \<Rightarrow> js_error + jsnum list" where
  "raw_seasonals series seasonalPeriod =
     (case new_array seasonalPeriod of
        Inl e \<Rightarrow> Inl e
      | Inr seasonals0 \<Rightarrow> Inr (phase_averages series seasonalPeriod seasonals0))"

text \<open>
  \<^verbatim>\<open>seasonals.reduce((a, b) => a + b)\<close> has no initial value: on an empty array it
  throws a \<open>TypeError\<close>, otherwise it folds from the first element.
\<close>

definition reduce_add :: "jsnum list \<Rightarrow> js_error + jsnum" where
  "reduce_add xs = (case xs of [] \<Rightarrow> Inl TypeError | x # rest \<Rightarrow> Inr (foldl jadd x rest))"

definition seasonalAverage :: "jsnum list \<Rightarrow> nat \<Rightarrow> js_error + jsnum" where
  "seasonalAverage series seasonalPeriod =
     (case raw_seasonals series seasonalPeriod of
        Inl e \<Rightarrow> Inl e
      | Inr seasonals \<Rightarrow>
          (case reduce_add seasonals of
             Inl e \<Rightarrow> Inl e
           | Inr acc \<Rightarrow> Inr (jdiv acc (Fin (real seasonalPeriod)))))"

text \<open>The seasonal table after \<^verbatim>\<open>seasonals.forEach((val, i) => seasonals[i] = val / seasonalAverage)\<close>.\<close>

definition init_seasonals :: "jsnum list \<Rightarrow> nat \<Rightarrow> js_error + jsnum list" where
  "init_seasonals series seasonalPeriod =
     (case raw_seasonals series seasonalPeriod of
        Inl e \<Rightarrow> Inl e
      | Inr seasonals \<Rightarrow>
          (case seasonalAverage series seasonalPeriod of
             Inl e \<Rightarrow> Inl e
           | Inr avg \<Rightarrow> Inr (map (\<lambda>v. jdiv v avg) seasonals)))"

subsection \<open>The initialisation with rounding\<close>

text \<open>
  The same statements (lines 11 to 24 of the source) with every arithmetic result passed
  through a rounding function \<open>rnd\<close>: with the identity they are the exact
  definitions above, with \<open>dbl\<close> they are the program on doubles.
\<close>

function phase_loop_with ::
  "(jsnum \<Rightarrow> jsnum) \<Rightarrow> jsnum list \<Rightarrow> nat \<Rightarrow> nat \<Rightarrow> jsnum \<times> nat \<Rightarrow> jsnum \<times> nat" where
  "phase_loop_with rnd series seasonalPeriod j (sum_acc, count) =
     (if 0 < seasonalPeriod \<and> j < length series
      then phase_loop_with rnd series seasonalPeriod (j + seasonalPeriod)
             (rnd (jadd sum_acc (idx series j)), count + 1)
      else (sum_acc, count))"
  by pat_completeness auto
termination
  by (relation "measure (\<lambda>(rnd, series, seasonalPeriod, j, acc). length series - j)") auto

declare phase_loop_with.simps [simp del]

definition raw_seasonals_with ::
  "(jsnum \<Rightarrow> jsnum) \<Rightarrow> jsnum list \<Rightarrow> nat \<Rightarrow> js_error + jsnum list" where
  "raw_seasonals_with rnd series seasonalPeriod =
     (case new_array seasonalPeriod of
        Inl e \<Rightarrow> Inl e
      | Inr seasonals0 \<Rightarrow>
          Inr (fold (\<lambda>i raw. raw[i :=
                      (let (sum_acc, count) = phase_loop_with rnd series seasonalPeriod i (Fin 0, 0)
                       in rnd (jdiv sum_acc (Fin (real count))))])
                 [0..<seasonalPeriod] seasonals0))"

definition seasonalAverage_with ::
  "(jsnum \<Rightarrow> jsnum) \<Rightarrow> jsnum list \<Rightarrow> nat \<Rightarrow> js_error + jsnum" where
  "seasonalAverage_with rnd series seasonalPeriod =
     (case raw_seasonals_with rnd series seasonalPeriod of
        Inl e \<Rightarrow> Inl e
      | Inr [] \<Rightarrow> Inl TypeError
      | Inr (x # rest) \<Rightarrow>
          Inr (rnd (jdiv (foldl (\<lambda>a b. rnd (jadd a b)) x rest) (Fin (real seasonalPeriod)))))"

definition init_seasonals_with ::
  "(jsnum \<Rightarrow> jsnum) \<Rightarrow> jsnum list \<Rightarrow> nat \<Rightarrow> js_error + jsnum list" where
  "init_seasonals_with rnd series seasonalPeriod =
     (case raw_seasonals_with rnd series seasonalPeriod of
        Inl e \<Rightarrow> Inl e
      | Inr raw \<Rightarrow>
          (case seasonalAverage_with rnd series seasonalPeriod of
             Inl e \<Rightarrow> Inl e
           | Inr avg \<Rightarrow> Inr (map (\<lambda>v. rnd (jdiv v avg)) raw)))"

subsection \<open>The recurrence and the forecast\<close>

record hw_state =
  level :: jsnum
  trend :: jsnum
  seasonals :: "jsnum list"
  results :: "point list"

text \<open>\<open>level = series[0]\<close> and \<open>trend = (series[seasonalPeriod] - series[0]) / seasonalPeriod\<close>.\<close>

definition init_state :: "jsnum list \<Rightarrow> nat \<Rightarrow> jsnum list \<Rightarrow> hw_state" where
  "init_state series seasonalPeriod table =
     \<lparr>level = idx series 0,
      trend = jdiv (jsub (idx series seasonalPeriod) (idx series 0)) (Fin (real seasonalPeriod)),
      seasonals = table,
      results = []\<rparr>"

text \<open>One iteration of the loop over \<open>i < n\<close>, in the order of the source's statements.\<close>

definition hw_step ::
  "observation list \<Rightarrow> jsnum \<Rightarrow> jsnum \<Rightarrow> jsnum \<Rightarrow> nat \<Rightarrow> nat \<Rightarrow> hw_state \<Rightarrow> hw_state" where
  "hw_step data alpha beta gamma seasonalPeriod i st =
     (let value = idx (map val data) i;
          lastLevel = level st;
          st1 = st\<lparr>level :=
                  jadd (jmul alpha (jdiv value (idx (seasonals st) (i mod seasonalPeriod))))
                       (jmul (jsub (Fin 1) alpha) (jadd lastLevel (trend st)))\<rparr>;
          st2 = st1\<lparr>trend :=
                  jadd (jmul beta (jsub (level st1) lastLevel))
                       (jmul (jsub (Fin 1) beta) (trend st1))\<rparr>;
          st3 = st2\<lparr>seasonals := (seasonals st2)[i mod seasonalPeriod :=
                  jadd (jmul gamma (jdiv value (level st2)))
                       (jmul (jsub (Fin 1) gamma) (idx (seasonals st2) (i mod seasonalPeriod)))]\<rparr>
      in st3\<lparr>results := results st3 @
            [\<lparr>pmonth = month (data ! i), pval = Some (val (data ! i)),
              fitted = jmul (jadd (level st3) (trend st3))
                         (idx (seasonals st3) (i mod seasonalPeriod))\<rparr>]\<rparr>)"

text \<open>One iteration of the loop over \<open>i < forecastSize\<close>.\<close>

definition forecast_step :: "nat \<Rightarrow> nat \<Rightarrow> nat \<Rightarrow> hw_state \<Rightarrow> hw_state" where
  "forecast_step n seasonalPeriod i st =
     (let forecast = jmul (jadd (level st) (jmul (trend st) (Fin (real (i + 1)))))
                       (idx (seasonals st) ((n + i) mod seasonalPeriod))
      in st\<lparr>results := results st @
            [\<lparr>pmonth = Some (''Forecast '' @ show_nat (i + 1)), pval = None, fitted = forecast\<rparr>]\<rparr>)"

text \<open>The state after the first \<open>k\<close> iterations of the recurrence.\<close>

definition recurrence ::
  "observation list \<Rightarrow> jsnum \<Rightarrow> jsnum \<Rightarrow> jsnum \<Rightarrow> nat \<Rightarrow> nat \<Rightarrow> hw_state \<Rightarrow> hw_state" where
  "recurrence data alpha beta gamma seasonalPeriod k st =
     fold (hw_step data alpha beta gamma seasonalPeriod) [0..<k] st"

text \<open>
  The state a call has reached after the first \<open>k\<close> iterations of the recurrence, or
  the error of the initialisation.
\<close>

definition trained ::
  "observation list \<Rightarrow> jsnum \<Rightarrow> jsnum \<Rightarrow> jsnum \<Rightarrow> nat \<Rightarrow> nat \<Rightarrow> js_error + hw_state" where
  "trained data alpha beta gamma seasonalPeriod k =
     (case init_seasonals (map val data) seasonalPeriod of
        Inl e \<Rightarrow> Inl e
      | Inr table \<Rightarrow>
          Inr (recurrence data alpha beta gamma seasonalPeriod k
                 (init_state (map val data) seasonalPeriod table)))"

text \<open>
  The function itself. The default values of the parameters are not modelled: every
  argument is given. The seasonal period and the forecast size are natural numbers.
\<close>

definition holtWinters ::
  "observation list \<Rightarrow> jsnum \<Rightarrow> jsnum \<Rightarrow> jsnum \<Rightarrow> nat \<Rightarrow> nat \<Rightarrow> js_error + point list" where
  "holtWinters data alpha beta gamma seasonalPeriod forecastSize =
     (let series = map val data;
          n = length series
      in case init_seasonals series seasonalPeriod of
           Inl e \<Rightarrow> Inl e
         | Inr table \<Rightarrow>
             let st0 = init_state series seasonalPeriod table;
                 st1 = recurrence data alpha beta gamma seasonalPeriod n st0;
                 st2 = fold (forecast_step n seasonalPeriod) [0..<forecastSize] st1
             in Inr (results st2))"

subsection \<open>The function on a heap\<close>

text \<open>
  JavaScript arrays are mutable objects reached by reference, and a call can read state
  that is not among its arguments. To state what a call reads and writes, the function is
  embedded a second time, statement by statement, over a world: a heap of arrays, an
  allocation pointer, and the state of the generator behind \<^verbatim>\<open>Math.random\<close>. The
  call receives the reference of \<open>data\<close>; \<^verbatim>\<open>data.map\<close>, \<^verbatim>\<open>Array(...)\<close> and
  \<^verbatim>\<open>[]\<close> allocate; \<open>seasonals\<close> is updated in place and \<open>results\<close> grows by
  \<^verbatim>\<open>push\<close>; the call returns the reference of \<open>results\<close>. Every write of the program
  is within the array written (\<open>i < seasonalPeriod\<close>), and the source has no call of
  \<^verbatim>\<open>Math.random\<close>.
\<close>

datatype cell = NumArray "jsnum list" | ObsArray "observation list" | PointArray "point list"

record world =
  cells :: "nat \<Rightarrow> cell option"
  next_ref :: nat
  random_seed :: nat

text \<open>In a well-formed world nothing lies at or beyond the allocation pointer.\<close>

definition wf_world :: "world \<Rightarrow> bool" where
  "wf_world w = (\<forall>a. next_ref w \<le> a \<longrightarrow> cells w a = None)"

text \<open>A new array takes the next reference.\<close>

definition alloc :: "cell \<Rightarrow> world \<Rightarrow> nat \<times> world" where
  "alloc c w = (next_ref w, w\<lparr>cells := (cells w)(next_ref w \<mapsto> c), next_ref := Suc (next_ref w)\<rparr>)"

definition store :: "nat \<Rightarrow> cell \<Rightarrow> world \<Rightarrow> world" where
  "store r c w = w\<lparr>cells := (cells w)(r \<mapsto> c)\<rparr>"

text \<open>
  Reads and writes through a reference: \<open>xs[i]\<close>, \<open>xs[i] = v\<close> (the program only
  writes within the length of the array), \<open>data[i]\<close> and \<open>results.push(p)\<close>.
\<close>

definition get_num :: "world \<Rightarrow> nat \<Rightarrow> nat \<Rightarrow> jsnum" where
  "get_num w r i = (case cells w r of Some (NumArray xs) \<Rightarrow> idx xs i | _ \<Rightarrow> NaN)"

definition set_num :: "nat \<Rightarrow> nat \<Rightarrow> jsnum \<Rightarrow> world \<Rightarrow> world" where
  "set_num r i v w =
     (case cells w r of Some (NumArray xs) \<Rightarrow> store r (NumArray (xs[i := v])) w | _ \<Rightarrow> w)"

definition get_obs :: "world \<Rightarrow> nat \<Rightarrow> nat \<Rightarrow> observation" where
  "get_obs w r i =
     (case cells w r of Some (ObsArray ds) \<Rightarrow> ds ! i | _ \<Rightarrow> \<lparr>month = None, val = NaN\<rparr>)"

definition push_point :: "nat \<Rightarrow> point \<Rightarrow> world \<Rightarrow> world" where
  "push_point r p w =
     (case cells w r of Some (PointArray ps) \<Rightarrow> store r (PointArray (ps @ [p])) w | _ \<Rightarrow> w)"

text \<open>The statements of the source, in their order, each on the world left by the one before.\<close>

function phase_loop_h ::
  "world \<Rightarrow> nat \<Rightarrow> nat \<Rightarrow> nat \<Rightarrow> nat \<Rightarrow> jsnum \<times> nat \<Rightarrow> jsnum \<times> nat" where
  "phase_loop_h w series_ref n seasonalPeriod j (sum_acc, count) =
     (if 0 < seasonalPeriod \<and> j < n
      then phase_loop_h w series_ref n seasonalPeriod (j + seasonalPeriod)
             (jadd sum_acc (get_num w series_ref j), count + 1)
      else (sum_acc, count))"
  by pat_completeness auto
termination
  by (relation "measure (\<lambda>(w, series_ref, n, seasonalPeriod, j, acc). n - j)") auto

declare phase_loop_h.simps [simp del]

definition seasonal_init_h :: "nat \<Rightarrow> nat \<Rightarrow> nat \<Rightarrow> nat \<Rightarrow> world \<Rightarrow> world" where
  "seasonal_init_h series_ref seasonals_ref n seasonalPeriod w0 =
     fold (\<lambda>i w. let (sum_acc, count) = phase_loop_h w series_ref n seasonalPeriod i (Fin 0, 0)
                  in set_num seasonals_ref i (jdiv sum_acc (Fin (real count))) w)
       [0..<seasonalPeriod] w0"

definition reduce_add_h :: "world \<Rightarrow> nat \<Rightarrow> js_error + jsnum" where
  "reduce_add_h w r = (case cells w r of Some (NumArray xs) \<Rightarrow> reduce_add xs | _ \<Rightarrow> Inl TypeError)"

definition normalize_h :: "nat \<Rightarrow> nat \<Rightarrow> jsnum \<Rightarrow> world \<Rightarrow> world" where
  "normalize_h seasonals_ref len average w0 =
     fold (\<lambda>i w. set_num seasonals_ref i (jdiv (get_num w seasonals_ref i) average) w) [0..<len] w0"

definition hw_step_h ::
  "nat \<Rightarrow> nat \<Rightarrow> nat \<Rightarrow> nat \<Rightarrow> jsnum \<Rightarrow> jsnum \<Rightarrow> jsnum \<Rightarrow> nat \<Rightarrow> nat \<Rightarrow>
   jsnum \<times> jsnum \<times> world \<Rightarrow> jsnum \<times> jsnum \<times> world" where
  "hw_step_h data_ref series_ref seasonals_ref results_ref alpha beta gamma seasonalPeriod i s =
     (case s of (level0, trend0, w0) \<Rightarrow>
      let value = get_num w0 series_ref i;
          lastLevel = level0;
          level1 = jadd (jmul alpha (jdiv value (get_num w0 seasonals_ref (i mod seasonalPeriod))))
                        (jmul (jsub (Fin 1) alpha) (jadd lastLevel trend0));
          trend1 = jadd (jmul beta (jsub level1 lastLevel)) (jmul (jsub (Fin 1) beta) trend0);
          w1 = set_num seasonals_ref (i mod seasonalPeriod)
                 (jadd (jmul gamma (jdiv value level1))
                       (jmul (jsub (Fin 1) gamma) (get_num w0 seasonals_ref (i mod seasonalPeriod)))) w0;
          w2 = push_point results_ref
                 \<lparr>pmonth = month (get_obs w1 data_ref i), pval = Some (val (get_obs w1 data_ref i)),
                  fitted = jmul (jadd level1 trend1) (get_num w1 seasonals_ref (i mod seasonalPeriod))\<rparr> w1
      in (level1, trend1, w2))"

definition forecast_step_h ::
  "nat \<Rightarrow> nat \<Rightarrow> nat \<Rightarrow> nat \<Rightarrow> jsnum \<Rightarrow> jsnum \<Rightarrow> nat \<Rightarrow> world \<Rightarrow> world" where
  "forecast_step_h n seasonalPeriod seasonals_ref results_ref level0 trend0 i w =
     (let forecast = jmul (jadd level0 (jmul trend0 (Fin (real (i + 1)))))
                       (get_num w seasonals_ref ((n + i) mod seasonalPeriod))
      in push_point results_ref
           \<lparr>pmonth = Some (''Forecast '' @ show_nat (i + 1)), pval = None, fitted = forecast\<rparr> w)"

text \<open>
  The call. Its first argument is the reference of an array of observations; for a
  reference that holds none the model stops at \<^verbatim>\<open>data.map\<close> with a \<open>TypeError\<close>.
  The array constructor throws before it allocates.
\<close>

definition holtWinters_h ::
  "nat \<Rightarrow> jsnum \<Rightarrow> jsnum \<Rightarrow> jsnum \<Rightarrow> nat \<Rightarrow> nat \<Rightarrow> world \<Rightarrow> (js_error + nat) \<times> world" where
  "holtWinters_h data_ref alpha beta gamma seasonalPeriod forecastSize w0 =
     (case cells w0 data_ref of
        Some (ObsArray ds) \<Rightarrow>
          (case alloc (NumArray (map val ds)) w0 of (series_ref, w1) \<Rightarrow>
           let n = length ds
           in case new_array seasonalPeriod of
                Inl e \<Rightarrow> (Inl e, w1)
              | Inr zeros \<Rightarrow>
                  (case alloc (NumArray zeros) w1 of (seasonals_ref, w2) \<Rightarrow>
                   let w3 = seasonal_init_h series_ref seasonals_ref n seasonalPeriod w2
                   in case reduce_add_h w3 seasonals_ref of
                        Inl e \<Rightarrow> (Inl e, w3)
                      | Inr acc \<Rightarrow>
                          let average = jdiv acc (Fin (real seasonalPeriod));
                              w4 = normalize_h seasonals_ref seasonalPeriod average w3;
                              level0 = get_num w4 series_ref 0;
                              trend0 = jdiv (jsub (get_num w4 series_ref seasonalPeriod) (get_num w4 series_ref 0))
                                         (Fin (real seasonalPeriod))
                          in (case alloc (PointArray []) w4 of (results_ref, w5) \<Rightarrow>
                              (case fold (hw_step_h data_ref series_ref seasonals_ref results_ref alpha beta gamma seasonalPeriod)
                                      [0..<n] (level0, trend0, w5) of
                                 (level1, trend1, w6) \<Rightarrow>
                                   (Inr results_ref,
                                    fold (forecast_step_h n seasonalPeriod seasonals_ref results_ref level1 trend1)
                                      [0..<forecastSize] w6)))))
      | _ \<Rightarrow> (Inl TypeError, w0))"

text \<open>The output sequence of a call: the contents of the array whose reference it returned.\<close>

definition returned :: "(js_error + nat) \<times> world \<Rightarrow> js_error + point list" where
  "returned rw =
     (case fst rw of
        Inl e \<Rightarrow> Inl e
      | Inr r \<Rightarrow> (case cells (snd rw) r of Some (PointArray ps) \<Rightarrow> Inr ps | _ \<Rightarrow> Inl TypeError))"

subsection \<open>Sample inputs\<close>

text \<open>The series 1, 2, 3 without labels.\<close>

definition linear3 :: "observation list" where
  "linear3 = [\<lparr>month = None, val = Fin 1\<rparr>, \<lparr>month = None, val = Fin 2\<rparr>,
              \<lparr>month = None, val = Fin 3\<rparr>]"



text \<open>The series 1, 2.\<close>

definition pair12 :: "observation list" where
  "pair12 = [\<lparr>month = None, val = Fin 1\<rparr>, \<lparr>month = None, val = Fin 2\<rparr>]"


text \<open>The double \<open>2^1023\<close>; its double is more than the largest finite double.\<close>

definition huge :: real where
  "huge = 2 ^ 1023"

text \<open>
  Two worlds that hold the series 1, 2: at reference 0 with nothing else, and at reference
  3 beside another array, with another state of the random generator.
\<close>

definition world_a :: world where
  "world_a = \<lparr>cells = (\<lambda>a. None)(0 \<mapsto> ObsArray pair12), next_ref = 1, random_seed = 7\<rparr>"

definition world_b :: world where
  "world_b = \<lparr>cells = (\<lambda>a. None)(0 \<mapsto> NumArray [NaN], 3 \<mapsto> ObsArray pair12),
              next_ref = 5, random_seed = 99\<rparr>"

section \<open>Properties of the loops\<close>

lemma length_phase_averages [simp]:
  "length (phase_averages series m xs) = length xs"
proof -
  have "length (fold (\<lambda>i seasonals. seasonals[i := f i]) is ys) = length ys" for f "is" and ys :: "jsnum list"
    by (induction "is" arbitrary: ys) simp_all
  then show ?thesis by (simp add: phase_averages_def)
qed

lemma raw_seasonals_in_range:
  "m < 2 ^ 32 \<Longrightarrow>
   raw_seasonals series m = Inr (phase_averages series m (replicate m (Fin 0)))"
  by (simp add: raw_seasonals_def new_array_def)

lemma raw_seasonals_out_of_range:
  "2 ^ 32 \<le> m \<Longrightarrow> raw_seasonals series m = Inl RangeError"
  by (simp add: raw_seasonals_def new_array_def)

lemma raw_seasonals_Inr:
  assumes "raw_seasonals series m = Inr raw"
  shows "m < 2 ^ 32 \<and> raw = phase_averages series m (replicate m (Fin 0)) \<and> length raw = m"
  using assms by (auto simp: raw_seasonals_def new_array_def split: if_splits)

lemma init_seasonals_0: "init_seasonals series 0 = Inl TypeError"
  by (simp add: init_seasonals_def seasonalAverage_def raw_seasonals_def new_array_def
      phase_averages_def reduce_add_def)

lemma init_seasonals_out_of_range:
  "2 ^ 32 \<le> m \<Longrightarrow> init_seasonals series m = Inl RangeError"
  by (simp add: init_seasonals_def raw_seasonals_out_of_range)

lemma init_seasonals_pos:
  assumes "0 < m" and "m < 2 ^ 32"
  shows "\<exists>table. init_seasonals series m = Inr table \<and> length table = m"
proof -
  let ?raw = "phase_averages series m (replicate m (Fin 0))"
  have raw: "raw_seasonals series m = Inr ?raw" by (rule raw_seasonals_in_range [OF assms(2)])
  have "length ?raw = m" by simp
  with assms(1) obtain x rest where "?raw = x # rest" by (cases ?raw) auto
  moreover have "length ?raw = m" by simp
  ultimately show ?thesis
    by (simp add: init_seasonals_def seasonalAverage_def raw reduce_add_def del: length_phase_averages)
qed

lemma init_seasonals_Inr_length:
  assumes "init_seasonals series m = Inr table"
  shows "length table = m \<and> 0 < m \<and> m < 2 ^ 32"
proof -
  have a: "m < 2 ^ 32" using assms init_seasonals_out_of_range [of m series]
    by (cases "m < 2 ^ 32") auto
  have b: "0 < m" using assms init_seasonals_0 [of series] by (cases "m = 0") auto
  from init_seasonals_pos [OF b a, of series] assms show ?thesis using a b by auto
qed

lemma hw_step_level:
  "level (hw_step data alpha beta gamma m i st) =
     jadd (jmul alpha (jdiv (idx (map val data) i) (idx (seasonals st) (i mod m))))
          (jmul (jsub (Fin 1) alpha) (jadd (level st) (trend st)))"
  by (simp add: hw_step_def Let_def)

lemma hw_step_trend:
  "trend (hw_step data alpha beta gamma m i st) =
     jadd (jmul beta (jsub (level (hw_step data alpha beta gamma m i st)) (level st)))
          (jmul (jsub (Fin 1) beta) (trend st))"
  by (simp add: hw_step_def Let_def)

lemma hw_step_seasonals:
  "seasonals (hw_step data alpha beta gamma m i st) =
     (seasonals st)[i mod m :=
        jadd (jmul gamma (jdiv (idx (map val data) i) (level (hw_step data alpha beta gamma m i st))))
             (jmul (jsub (Fin 1) gamma) (idx (seasonals st) (i mod m)))]"
  by (simp add: hw_step_def Let_def)

lemma hw_step_results:
  "results (hw_step data alpha beta gamma m i st) =
     results st @
       [\<lparr>pmonth = month (data ! i), pval = Some (val (data ! i)),
         fitted = jmul (jadd (level (hw_step data alpha beta gamma m i st))
                             (trend (hw_step data alpha beta gamma m i st)))
                       (idx (seasonals (hw_step data alpha beta gamma m i st)) (i mod m))\<rparr>]"
  by (simp add: hw_step_def Let_def)

lemma recurrence_0 [simp]: "recurrence data alpha beta gamma m 0 st = st"
  by (simp add: recurrence_def)

lemma recurrence_Suc:
  "recurrence data alpha beta gamma m (Suc k) st =
     hw_step data alpha beta gamma m k (recurrence data alpha beta gamma m k st)"
  by (simp add: recurrence_def)

lemma length_seasonals_recurrence [simp]:
  "length (seasonals (recurrence data alpha beta gamma m k st)) = length (seasonals st)"
  by (induction k) (simp_all add: recurrence_Suc hw_step_seasonals)

lemma length_results_recurrence:
  "length (results (recurrence data alpha beta gamma m k st)) = length (results st) + k"
  by (induction k) (simp_all add: recurrence_Suc hw_step_results)

lemma results_recurrence_prefix:
  "j \<le> k \<Longrightarrow> take (length (results st) + j) (results (recurrence data alpha beta gamma m k st))
      = results (recurrence data alpha beta gamma m j st)"
proof (induction k)
  case 0 then show ?case by simp
next
  case (Suc k)
  show ?case
  proof (cases "j = Suc k")
    case True then show ?thesis by (simp add: length_results_recurrence)
  next
    case False
    with Suc.prems have "j \<le> k" by simp
    then show ?thesis using Suc.IH
      by (simp add: recurrence_Suc hw_step_results length_results_recurrence)
  qed
qed

lemma results_recurrence_nth:
  assumes "i < k"
  shows "results (recurrence data alpha beta gamma m k st) ! (length (results st) + i) =
     last (results (recurrence data alpha beta gamma m (Suc i) st))"
proof -
  have "Suc i \<le> k" using assms by simp
  from results_recurrence_prefix [OF this, of st data alpha beta gamma m]
  have t: "take (length (results st) + Suc i) (results (recurrence data alpha beta gamma m k st))
      = results (recurrence data alpha beta gamma m (Suc i) st)" .
  have "results (recurrence data alpha beta gamma m k st) ! (length (results st) + i)
     = take (length (results st) + Suc i) (results (recurrence data alpha beta gamma m k st)) ! (length (results st) + i)"
    by simp
  also have "\<dots> = results (recurrence data alpha beta gamma m (Suc i) st) ! (length (results st) + i)"
    by (simp only: t)
  also have "\<dots> = last (results (recurrence data alpha beta gamma m (Suc i) st))"
    by (simp add: recurrence_Suc hw_step_results nth_append length_results_recurrence)
  finally show ?thesis .
qed

lemma forecast_fold_results:
  "results (fold (forecast_step n m) is st) =
     results st @ map (\<lambda>i. \<lparr>pmonth = Some (''Forecast '' @ show_nat (i + 1)), pval = None,
        fitted = jmul (jadd (level st) (jmul (trend st) (Fin (real (i + 1)))))
                      (idx (seasonals st) ((n + i) mod m))\<rparr>) is"
proof (induction "is" arbitrary: st)
  case Nil then show ?case by simp
next
  case (Cons a "is")
  show ?case
    by (simp add: Cons.IH) (simp add: forecast_step_def Let_def)
qed

lemma holtWinters_trained:
  "holtWinters data alpha beta gamma m h =
     (case trained data alpha beta gamma m (length data) of
        Inl e \<Rightarrow> Inl e
      | Inr st \<Rightarrow> Inr (results st @ map (\<lambda>i. \<lparr>pmonth = Some (''Forecast '' @ show_nat (i + 1)), pval = None,
        fitted = jmul (jadd (level st) (jmul (trend st) (Fin (real (i + 1)))))
                      (idx (seasonals st) ((length data + i) mod m))\<rparr>) [0..<h]))"
  by (simp add: holtWinters_def trained_def Let_def forecast_fold_results split: sum.splits)

subsection \<open>Arithmetic of the number model\<close>

lemma jadd_NaN_right [simp]: "jadd x NaN = NaN"
  by (cases x) simp_all

lemma jneg_NaN_iff [simp]: "jneg x = NaN \<longleftrightarrow> x = NaN"
  by (cases x) simp_all

lemma jsub_NaN [simp]: "jsub NaN y = NaN" "jsub x NaN = NaN"
  by (simp_all add: jsub_def)

lemma jmul_NaN [simp]: "jmul NaN y = NaN" "jmul x NaN = NaN"
  by (simp_all add: jmul_def)

lemma jdiv_NaN [simp]: "jdiv NaN y = NaN" "jdiv x NaN = NaN"
  by (simp_all add: jdiv_def)

lemma jsub_Fin_Fin [simp]: "jsub (Fin a) (Fin b) = Fin (a - b)"
  by (simp add: jsub_def)

lemma jmul_one_left [simp]: "jmul (Fin 1) x = x"
  by (cases x) (simp_all add: jmul_def signed_zero_def signed_inf_def)

lemma jmul_one_right [simp]: "jmul x (Fin 1) = x"
  by (cases x) (simp_all add: jmul_def signed_zero_def signed_inf_def)

lemma jdiv_one [simp]: "jdiv x (Fin 1) = x"
  by (cases x) (simp_all add: jdiv_def signed_zero_def signed_inf_def)

lemma is_fin_jadd: "is_fin (jadd x y) \<longleftrightarrow> is_fin x \<and> is_fin y"
  by (cases x; cases y) simp_all

lemma rv_jadd: "is_fin x \<Longrightarrow> is_fin y \<Longrightarrow> rv (jadd x y) = rv x + rv y"
  by (cases x; cases y) simp_all

lemma is_fin_jdiv: "is_fin x \<Longrightarrow> is_fin y \<Longrightarrow> rv y \<noteq> 0 \<Longrightarrow> is_fin (jdiv x y)"
  by (cases x; cases y) (simp_all add: jdiv_def signed_zero_def)

lemma rv_jdiv: "is_fin x \<Longrightarrow> is_fin y \<Longrightarrow> rv y \<noteq> 0 \<Longrightarrow> rv (jdiv x y) = rv x / rv y"
  by (cases x; cases y) (simp_all add: jdiv_def signed_zero_def)

lemma fin_nonzero: "is_fin x \<Longrightarrow> rv x \<noteq> 0 \<Longrightarrow> x = Fin (rv x)"
  by (cases x) simp_all

lemma is_zero_jmul_zero: "is_fin q \<Longrightarrow> is_zero (jmul (Fin 0) q)"
  by (cases q) (simp_all add: jmul_def signed_zero_def)

lemma jadd_zero_Fin: "is_zero z \<Longrightarrow> jadd z (Fin x) = Fin x"
  by (cases z) simp_all

lemma jadd_Fin_zero: "is_zero z \<Longrightarrow> jadd (Fin x) z = Fin x"
  by (cases z) simp_all


lemma trained_0:
  "init_seasonals (map val data) m = Inr table \<Longrightarrow>
   trained data alpha beta gamma m 0 = Inr (init_state (map val data) m table)"
  by (simp add: trained_def)

lemma trained_Inr:
  assumes "0 < m" and "m < 2 ^ 32"
  shows "\<exists>st. trained data alpha beta gamma m k = Inr st \<and> length (seasonals st) = m"
proof -
  from init_seasonals_pos [OF assms, of "map val data"]
  obtain table where "init_seasonals (map val data) m = Inr table" "length table = m" by blast
  then show ?thesis by (simp add: trained_def init_state_def)
qed

lemma trained_0_TypeError: "trained data alpha beta gamma 0 k = Inl TypeError"
  by (simp add: trained_def init_seasonals_0)

lemma trained_out_of_range:
  "2 ^ 32 \<le> m \<Longrightarrow> trained data alpha beta gamma m k = Inl RangeError"
  by (simp add: trained_def init_seasonals_out_of_range)

lemma trained_pos:
  assumes "trained data alpha beta gamma m k = Inr st"
  shows "0 < m \<and> length (seasonals st) = m \<and> length (results st) = k"
proof -
  from assms obtain table where t: "init_seasonals (map val data) m = Inr table"
    and st: "st = recurrence data alpha beta gamma m k (init_state (map val data) m table)"
    by (auto simp: trained_def split: sum.splits)
  from init_seasonals_Inr_length [OF t] have "length table = m" and m: "0 < m" by simp_all
  then show ?thesis using m st by (simp add: init_state_def length_results_recurrence)
qed

lemma trained_in_range:
  assumes "trained data alpha beta gamma m k = Inr st"
  shows "m < 2 ^ 32"
proof -
  from assms obtain table where "init_seasonals (map val data) m = Inr table"
    by (auto simp: trained_def split: sum.splits)
  from init_seasonals_Inr_length [OF this] show ?thesis by simp
qed

lemma holtWinters_zero_period: "holtWinters data alpha beta gamma 0 h = Inl TypeError"
  by (simp add: holtWinters_trained trained_0_TypeError)

lemma holtWinters_out_of_range:
  "2 ^ 32 \<le> m \<Longrightarrow> holtWinters data alpha beta gamma m h = Inl RangeError"
  by (simp add: holtWinters_trained trained_out_of_range)

lemma trained_Suc:
  "trained data alpha beta gamma m k = Inr st \<Longrightarrow>
   trained data alpha beta gamma m (Suc k) = Inr (hw_step data alpha beta gamma m k st)"
  by (auto simp: trained_def recurrence_Suc split: sum.splits)

lemma trained_results_nth:
  assumes "trained data alpha beta gamma m k = Inr st" and "i < k"
    and "trained data alpha beta gamma m (Suc i) = Inr st'"
  shows "results st ! i = last (results st')"
proof -
  from assms(1) obtain table where t: "init_seasonals (map val data) m = Inr table"
    and st: "st = recurrence data alpha beta gamma m k (init_state (map val data) m table)"
    by (auto simp: trained_def split: sum.splits)
  from assms(3) t have st': "st' = recurrence data alpha beta gamma m (Suc i) (init_state (map val data) m table)"
    by (simp add: trained_def)
  show ?thesis
    using results_recurrence_nth [OF assms(2), of data alpha beta gamma m "init_state (map val data) m table"]
    by (simp add: st st' init_state_def)
qed

lemma holtWinters_Inr:
  assumes "trained data alpha beta gamma m (length data) = Inr st"
  shows "\<exists>out. holtWinters data alpha beta gamma m h = Inr out \<and> length out = length data + h \<and>
     take (length data) out = results st \<and>
     (\<forall>j<h. out ! (length data + j) =
        \<lparr>pmonth = Some (''Forecast '' @ show_nat (j + 1)), pval = None,
         fitted = jmul (jadd (level st) (jmul (trend st) (Fin (real (j + 1)))))
                       (idx (seasonals st) ((length data + j) mod m))\<rparr>)"
proof -
  from trained_pos [OF assms] have len: "length (results st) = length data" by simp
  show ?thesis
    by (simp add: holtWinters_trained assms len nth_append)
qed

lemma holtWinters_nth_fitted:
  assumes "trained data alpha beta gamma m (length data) = Inr st"
    and "holtWinters data alpha beta gamma m h = Inr out"
    and "i < length data"
  shows "out ! i = results st ! i"
proof -
  from holtWinters_Inr [OF assms(1), of h] assms(2)
  have "take (length data) out = results st" by auto
  then have "results st ! i = take (length data) out ! i" by simp
  also have "\<dots> = out ! i" using assms(3) by simp
  finally show ?thesis by simp
qed

lemma trained_results_point:
  assumes "trained data alpha beta gamma m k = Inr st" and "i < k"
  shows "\<exists>st'. trained data alpha beta gamma m (Suc i) = Inr st' \<and>
     results st ! i =
       \<lparr>pmonth = month (data ! i), pval = Some (val (data ! i)),
        fitted = jmul (jadd (level st') (trend st')) (idx (seasonals st') (i mod m))\<rparr>"
proof -
  from trained_pos [OF assms(1)] trained_in_range [OF assms(1)]
  have "0 < m" and "m < 2 ^ 32" by simp_all
  from trained_Inr [OF this, of data alpha beta gamma i]
  obtain sti where sti: "trained data alpha beta gamma m i = Inr sti" by blast
  let ?st' = "hw_step data alpha beta gamma m i sti"
  have st': "trained data alpha beta gamma m (Suc i) = Inr ?st'"
    by (rule trained_Suc [OF sti])
  have "results st ! i = last (results ?st')"
    by (rule trained_results_nth [OF assms st'])
  then show ?thesis using st' by (simp add: hw_step_results)
qed

lemma is_fin_foldl_jadd:
  "is_fin (foldl jadd x xs) \<longleftrightarrow> is_fin x \<and> (\<forall>y\<in>set xs. is_fin y)"
  by (induction xs arbitrary: x) (auto simp: is_fin_jadd)

lemma rv_foldl_jadd:
  "is_fin x \<Longrightarrow> \<forall>y\<in>set xs. is_fin y \<Longrightarrow> rv (foldl jadd x xs) = rv x + sum_list (map rv xs)"
  by (induction xs arbitrary: x) (simp_all add: is_fin_jadd rv_jadd)

lemma jdiv_Fin_eq_Fin:
  assumes "jdiv x (Fin c) = Fin a" and "0 < c" and "a \<noteq> 0"
  shows "is_fin x \<and> rv x = a * c"
  using assms by (cases x) (auto simp: jdiv_def signed_zero_def signed_inf_def split: if_splits)

lemma sum_list_map_rv_jdiv:
  assumes "\<forall>y\<in>set xs. is_fin y" and "a \<noteq> 0"
  shows "sum_list (map rv (map (\<lambda>v. jdiv v (Fin a)) xs)) = sum_list (map rv xs) / a"
  using assms by (induction xs) (simp_all add: rv_jdiv add_divide_distrib)

section \<open>The recurrence\<close>

text \<open>
  Claim C1. At every step \<open>i < n\<close> of the recurrence, with \<open>value\<close> the observation
  and \<open>s\<close> the seasonal slot \<open>i mod m\<close> before the step, the new level is
  \<open>alpha * (value / s) + (1 - alpha) * (level + trend)\<close>, the new trend is
  \<open>beta * (level' - level) + (1 - beta) * trend\<close> (it reads the new level), the slot becomes
  \<open>gamma * (value / level') + (1 - gamma) * s\<close> (it reads the new level too), no other slot
  changes, and the fitted value of the \<open>i\<close>-th output record is
  \<open>(level' + trend') * s'\<close> with the updated slot \<open>s'\<close>.
\<close>

theorem recurrence_step_order:
  assumes "trained data alpha beta gamma m i = Inr st" and "i < length data"
    and "value = val (data ! i)" and "s = seasonals st ! (i mod m)"
    and "level' = jadd (jmul alpha (jdiv value s)) (jmul (jsub (Fin 1) alpha) (jadd (level st) (trend st)))"
    and "trend' = jadd (jmul beta (jsub level' (level st))) (jmul (jsub (Fin 1) beta) (trend st))"
    and "s' = jadd (jmul gamma (jdiv value level')) (jmul (jsub (Fin 1) gamma) s)"
  shows "\<exists>st' out. trained data alpha beta gamma m (Suc i) = Inr st' \<and>
     holtWinters data alpha beta gamma m h = Inr out \<and>
     level st' = level' \<and> trend st' = trend' \<and>
     seasonals st' = (seasonals st)[i mod m := s'] \<and>
     fitted (out ! i) = jmul (jadd level' trend') s'"
proof -
  from trained_pos [OF assms(1)] have m: "0 < m" and lens: "length (seasonals st) = m" by simp_all
  let ?st' = "hw_step data alpha beta gamma m i st"
  have st': "trained data alpha beta gamma m (Suc i) = Inr ?st'"
    by (rule trained_Suc [OF assms(1)])
  have v: "idx (map val data) i = value" using assms(2,3) by (simp add: idx_def)
  have sl: "idx (seasonals st) (i mod m) = s" using m lens assms(4) by (simp add: idx_def)
  have l: "level ?st' = level'" by (simp add: hw_step_level v sl assms(5))
  have t: "trend ?st' = trend'" by (simp add: hw_step_trend l assms(6))
  have se: "seasonals ?st' = (seasonals st)[i mod m := s']"
    by (simp add: hw_step_seasonals l v sl assms(7))
  have slot: "idx (seasonals ?st') (i mod m) = s'"
    using m lens by (simp add: se idx_def)
  from trained_Inr [OF m trained_in_range [OF assms(1)], of data alpha beta gamma "length data"]
  obtain stn where stn: "trained data alpha beta gamma m (length data) = Inr stn" by blast
  from holtWinters_Inr [OF stn, of h]
  obtain out where out: "holtWinters data alpha beta gamma m h = Inr out" by blast
  have "out ! i = results stn ! i" by (rule holtWinters_nth_fitted [OF stn out assms(2)])
  with trained_results_point [OF stn assms(2)] st'
  have "fitted (out ! i) = jmul (jadd (level ?st') (trend ?st')) (idx (seasonals ?st') (i mod m))"
    by auto
  then have "fitted (out ! i) = jmul (jadd level' trend') s'" by (simp add: l t slot)
  with st' out l t se show ?thesis by blast
qed

theorem recurrence_step_order_witness:
  "\<exists>st' out. trained linear3 (Fin 1) (Fin 1) (Fin 0) 2 (Suc 0) = Inr st' \<and>
     holtWinters linear3 (Fin 1) (Fin 1) (Fin 0) 2 2 = Inr out \<and>
     level st' = Fin 1 \<and> trend st' = Fin 0 \<and> seasonals st' = [Fin 1, Fin 1] \<and>
     fitted (out ! 0) = Fin 1"
proof -
  have h1: "trained linear3 (Fin 1) (Fin 1) (Fin 0) 2 0 =
      Inr \<lparr>level = Fin 1, trend = Fin 1, seasonals = [Fin 1, Fin 1], results = []\<rparr>"
    by code_simp
  have h2: "0 < length linear3" by (simp add: linear3_def)
  have e: "jdiv (Fin 1) (Fin 1) = Fin 1" "jmul (Fin 0) (Fin 2) = Fin 0" "jmul (Fin 0) (Fin 1) = Fin 0"
    by (simp_all add: jdiv_def jmul_def signed_zero_def)
  show ?thesis
    using recurrence_step_order [OF h1 h2 refl refl refl refl refl, of 2]
    by (simp add: linear3_def e)
qed

section \<open>The forecast projection\<close>

text \<open>
  Claim C2. For every \<open>k\<close> from 1 to the forecast horizon, the \<open>k\<close>-th forecast record
  (at index \<open>n + k - 1\<close> of the output) has the fitted value
  \<open>(level + trend * k) * seasonals[(n + k - 1) mod m]\<close>, where level, trend and the seasonal
  table are those of the state after all \<open>n\<close> steps of the recurrence.
\<close>

theorem forecast_projection:
  assumes "trained data alpha beta gamma m (length data) = Inr st"
    and "1 \<le> k" and "k \<le> forecastHorizon"
  shows "\<exists>out. holtWinters data alpha beta gamma m forecastHorizon = Inr out \<and>
     fitted (out ! (length data + k - 1)) =
       jmul (jadd (level st) (jmul (trend st) (Fin (real k))))
            (seasonals st ! ((length data + k - 1) mod m))"
proof -
  from trained_pos [OF assms(1)] have m: "0 < m" and lens: "length (seasonals st) = m" by simp_all
  from holtWinters_Inr [OF assms(1), of forecastHorizon]
  obtain out where out: "holtWinters data alpha beta gamma m forecastHorizon = Inr out"
    and fc: "\<forall>j<forecastHorizon. out ! (length data + j) =
        \<lparr>pmonth = Some (''Forecast '' @ show_nat (j + 1)), pval = None,
         fitted = jmul (jadd (level st) (jmul (trend st) (Fin (real (j + 1)))))
                       (idx (seasonals st) ((length data + j) mod m))\<rparr>"
    by blast
  obtain j where j: "k = Suc j" using assms(2) by (cases k) auto
  then have "j < forecastHorizon" using assms(3) by simp
  with fc have "fitted (out ! (length data + j)) =
      jmul (jadd (level st) (jmul (trend st) (Fin (real (j + 1)))))
           (idx (seasonals st) ((length data + j) mod m))" by simp
  moreover have "idx (seasonals st) ((length data + j) mod m) = seasonals st ! ((length data + j) mod m)"
    using m lens by (simp add: idx_def)
  ultimately show ?thesis using out j by auto
qed

theorem forecast_projection_witness:
  "\<exists>out. holtWinters linear3 (Fin 1) (Fin 1) (Fin 0) 2 2 = Inr out \<and>
     fitted (out ! (length linear3 + 2 - 1)) = Fin 5"
proof -
  let ?st = "\<lparr>level = Fin 3, trend = Fin 1, seasonals = [Fin 1, Fin 1],
           results = [\<lparr>pmonth = None, pval = Some (Fin 1), fitted = Fin 1\<rparr>,
                      \<lparr>pmonth = None, pval = Some (Fin 2), fitted = Fin 3\<rparr>,
                      \<lparr>pmonth = None, pval = Some (Fin 3), fitted = Fin 4\<rparr>]\<rparr>"
  have h1: "trained linear3 (Fin 1) (Fin 1) (Fin 0) 2 (length linear3) = Inr ?st"
    by code_simp
  have h2: "(1::nat) \<le> 2" and h3: "(2::nat) \<le> 2" by simp_all
  from forecast_projection [OF h1 h2 h3]
  obtain out where o: "holtWinters linear3 (Fin 1) (Fin 1) (Fin 0) 2 2 = Inr out"
    and f: "fitted (out ! (length linear3 + 2 - 1)) =
       jmul (jadd (level ?st) (jmul (trend ?st) (Fin (real 2))))
            (seasonals ?st ! ((length linear3 + 2 - 1) mod 2))"
    by blast
  have "jmul (jadd (level ?st) (jmul (trend ?st) (Fin (real 2))))
            (seasonals ?st ! ((length linear3 + 2 - 1) mod 2)) = Fin 5"
    by (simp add: linear3_def)
  with o f show ?thesis by simp
qed

section \<open>The shape of the output\<close>



section \<open>Normalisation of the seasonal table\<close>

lemma phase_loop_with_exact:
  "phase_loop_with (\<lambda>x. x) series m j acc = phase_loop series m j acc"
proof (induction series m j acc rule: phase_loop.induct)
  case (1 series m j sum_acc count)
  show ?case
  proof (cases "0 < m \<and> j < length series")
    case True
    with "1.IH" [OF True] show ?thesis
      by (simp add: phase_loop.simps [of series m j] phase_loop_with.simps [of _ series m j])
  next
    case False
    then show ?thesis
      by (auto simp: phase_loop.simps [of series m j] phase_loop_with.simps [of _ series m j])
  qed
qed

lemma raw_seasonals_with_exact: "raw_seasonals_with (\<lambda>x. x) series m = raw_seasonals series m"
  by (simp add: raw_seasonals_with_def raw_seasonals_def phase_averages_def phase_average_def
      phase_loop_with_exact split: sum.splits)

lemma seasonalAverage_with_exact:
  "seasonalAverage_with (\<lambda>x. x) series m = seasonalAverage series m"
  by (simp add: seasonalAverage_with_def seasonalAverage_def raw_seasonals_with_exact reduce_add_def
      split: sum.splits list.splits)

lemma init_seasonals_with_exact:
  "init_seasonals_with (\<lambda>x. x) series m = init_seasonals series m"
  by (simp add: init_seasonals_with_def init_seasonals_def raw_seasonals_with_exact
      seasonalAverage_with_exact split: sum.splits)

lemma log2_floor_2097: "log2_floor (2 ^ 2097) = 2097"
  by (simp add: log2_floor_def)

lemma log2_floor_2098: "log2_floor (2 ^ 2098) = 2098"
  by (simp add: log2_floor_def)

lemma round_even_2_52: "round_even (2 ^ 52) = 2 ^ 52"
  by (simp add: round_even_def)

lemma to_double_huge: "to_double huge = Fin huge"
proof -
  have y: "\<bar>(2::real) ^ 1023\<bar> * 2 ^ 1074 = 2 ^ 2097" by (simp add: power_add [symmetric])
  have m: "max ((2::real) ^ 2097) 1 = 2 ^ 2097" by (simp add: max_def)
  have d: "(2097::nat) - 52 = 2045" by simp
  have q: "(2::real) ^ 2097 / 2 ^ 2045 = 2 ^ 52" by (simp add: power_diff [symmetric])
  have r: "(of_int (2 ^ 52) :: real) * 2 ^ 2045 / 2 ^ 1074 = 2 ^ 1023"
    by (simp add: power_add [symmetric] power_diff [symmetric])
  have n: "\<not> (2::real) ^ 1024 \<le> 2 ^ 1023" by simp
  show ?thesis
    unfolding huge_def to_double_def Let_def y m log2_floor_2097 d q round_even_2_52 r
    using n by simp
qed

lemma to_double_twice_huge: "to_double (2 * huge) = PInf"
proof -
  have "(2::real) ^ 1024 = 2 ^ Suc 1023" by simp
  then have s: "2 * (2::real) ^ 1023 = 2 ^ 1024" by (simp only: power_Suc)
  have y: "\<bar>(2::real) ^ 1024\<bar> * 2 ^ 1074 = 2 ^ 2098" by (simp add: power_add [symmetric])
  have m: "max ((2::real) ^ 2098) 1 = 2 ^ 2098" by (simp add: max_def)
  have d: "(2098::nat) - 52 = 2046" by simp
  have q: "(2::real) ^ 2098 / 2 ^ 2046 = 2 ^ 52" by (simp add: power_diff [symmetric])
  have r: "(of_int (2 ^ 52) :: real) * 2 ^ 2046 / 2 ^ 1074 = 2 ^ 1024"
    by (simp add: power_add [symmetric] power_diff [symmetric])
  have z: "(2::real) ^ 1024 \<noteq> 0" and n: "\<not> (2::real) ^ 1024 < 0" by simp_all
  show ?thesis
    unfolding huge_def s to_double_def Let_def y m log2_floor_2098 d q round_even_2_52 r
    using z n by (simp only: signed_inf_def if_False if_True order_refl)
qed

lemma phase_loop_with_step:
  "0 < m \<Longrightarrow> j < length series \<Longrightarrow>
   phase_loop_with rnd series m j (s, c) =
   phase_loop_with rnd series m (j + m) (rnd (jadd s (idx series j)), c + 1)"
  by (subst phase_loop_with.simps) simp

lemma phase_loop_with_stop:
  "\<not> j < length series \<Longrightarrow> phase_loop_with rnd series m j (s, c) = (s, c)"
  by (subst phase_loop_with.simps) simp

lemma phase_loop_overflow:
  "phase_loop_with dbl [Fin huge, Fin huge] (Suc 0) 0 (Fin 0, 0) = (PInf, 2)"
proof -
  have a: "dbl (jadd (Fin 0) (idx [Fin huge, Fin huge] 0)) = Fin huge"
    by (simp add: idx_def to_double_huge)
  have b: "dbl (jadd (Fin huge) (idx [Fin huge, Fin huge] (0 + Suc 0))) = PInf"
    by (simp add: idx_def to_double_twice_huge)
  have "phase_loop_with dbl [Fin huge, Fin huge] (Suc 0) 0 (Fin 0, 0) =
        phase_loop_with dbl [Fin huge, Fin huge] (Suc 0) (0 + Suc 0) (Fin huge, 0 + 1)"
    by (subst phase_loop_with_step) (simp_all only: a, simp_all)
  also have "\<dots> = phase_loop_with dbl [Fin huge, Fin huge] (Suc 0) (0 + Suc 0 + Suc 0) (PInf, 0 + 1 + 1)"
    by (subst phase_loop_with_step) (simp_all only: b, simp_all)
  also have "\<dots> = (PInf, 0 + 1 + 1)"
    by (rule phase_loop_with_stop) simp
  finally show ?thesis by simp
qed

lemma raw_seasonals_overflow: "raw_seasonals_with dbl [Fin huge, Fin huge] (Suc 0) = Inr [PInf]"
  by (simp add: raw_seasonals_with_def new_array_def phase_loop_overflow jdiv_def signed_inf_def)

text \<open>
  Claim C4, as stated, on doubles, at the series \<open>2^1023, 2^1023\<close> with period 1. In
  exact arithmetic the raw seasonal mean is \<open>2^1023\<close>. On doubles the sum of the phase
  overflows, the raw seasonal mean is \<open>Infinity\<close> (not zero), the normalised table is
  \<open>[NaN]\<close>, and its mean is \<open>NaN\<close>, not within \<open>1e-9\<close> of 1.
\<close>

theorem normalization_double_counterexample:
  "seasonalAverage [Fin huge, Fin huge] 1 = Inr (Fin huge) \<and>
   seasonalAverage_with dbl [Fin huge, Fin huge] 1 = Inr PInf \<and>
   init_seasonals_with dbl [Fin huge, Fin huge] 1 = Inr [NaN] \<and>
   dbl (jdiv NaN (Fin (real 1))) = NaN"
proof (intro conjI)
  have pl: "phase_loop [Fin huge, Fin huge] (Suc 0) 0 (Fin 0, 0) = (Fin (2 * huge), 2)"
    by (simp add: phase_loop.simps [of _ _ 0] phase_loop.simps [of _ _ "Suc 0"]
        phase_loop.simps [of _ _ "Suc (Suc 0)"] idx_def)
  have h: "huge \<noteq> 0" by (simp add: huge_def)
  show "seasonalAverage [Fin huge, Fin huge] 1 = Inr (Fin huge)"
    using h by (simp add: seasonalAverage_def raw_seasonals_def new_array_def phase_averages_def
        phase_average_def pl reduce_add_def jdiv_def)
  show a: "seasonalAverage_with dbl [Fin huge, Fin huge] 1 = Inr PInf"
    by (simp add: seasonalAverage_with_def raw_seasonals_overflow jdiv_def signed_inf_def)
  show "init_seasonals_with dbl [Fin huge, Fin huge] 1 = Inr [NaN]"
    using a by (simp add: init_seasonals_with_def raw_seasonals_overflow jdiv_def)
  show "dbl (jdiv NaN (Fin (real 1))) = NaN" by simp
qed

text \<open>
  Claim C4, amended. When the mean of the raw seasonal values is a nonzero finite number,
  the seasonal table after initialisation has \<open>m\<close> entries whose mean, computed as the
  program computes a mean (\<open>reduce\<close> then a division by \<open>m\<close>), is exactly 1, in exact
  arithmetic.
\<close>

theorem normalization_mean_one:
  assumes "seasonalAverage series m = Inr (Fin a)" and "a \<noteq> 0"
  shows "\<exists>table acc. init_seasonals series m = Inr table \<and> length table = m \<and>
     reduce_add table = Inr acc \<and> jdiv acc (Fin (real m)) = Fin 1"
proof -
  from assms(1) obtain raw acc0 where rs: "raw_seasonals series m = Inr raw"
    and r: "reduce_add raw = Inr acc0"
    and d: "jdiv acc0 (Fin (real m)) = Fin a"
    by (auto simp: seasonalAverage_def split: sum.splits)
  from r obtain x rest where raw: "raw = x # rest"
    and acc0: "acc0 = foldl jadd x rest"
    by (cases raw) (auto simp: reduce_add_def)
  from raw_seasonals_Inr [OF rs] have lraw: "length raw = m" by simp
  have m: "0 < m" using raw lraw by (cases "m = 0") auto
  from jdiv_Fin_eq_Fin [OF d _ assms(2)] m
  have fin0: "is_fin acc0" and rv0: "rv acc0 = a * real m" by simp_all
  from fin0 have fx: "is_fin x" and frest: "\<forall>y\<in>set rest. is_fin y"
    by (simp_all add: acc0 is_fin_foldl_jadd)
  have sum0: "rv x + sum_list (map rv rest) = a * real m"
    using rv0 by (simp add: acc0 rv_foldl_jadd [OF fx frest])
  let ?n = "\<lambda>v. jdiv v (Fin a)"
  let ?acc = "foldl jadd (?n x) (map ?n rest)"
  have table: "init_seasonals series m = Inr (?n x # map ?n rest)"
    by (simp add: init_seasonals_def assms(1) rs raw)
  have fnx: "is_fin (?n x)" using fx assms(2) by (simp add: is_fin_jdiv)
  have fnrest: "\<forall>y\<in>set (map ?n rest). is_fin y" using frest assms(2) by (simp add: is_fin_jdiv)
  have facc: "is_fin ?acc" using fnx fnrest by (simp only: is_fin_foldl_jadd)
  have "rv ?acc = rv (?n x) + sum_list (map rv (map ?n rest))"
    by (rule rv_foldl_jadd [OF fnx fnrest])
  also have "\<dots> = rv x / a + sum_list (map rv rest) / a"
    using fx assms(2) by (simp only: sum_list_map_rv_jdiv [OF frest assms(2)]) (simp add: rv_jdiv)
  also have "\<dots> = (a * real m) / a" using sum0 by (simp add: add_divide_distrib [symmetric])
  also have "\<dots> = real m" using assms(2) by simp
  finally have rvacc: "rv ?acc = real m" .
  then have "?acc = Fin (real m)" using fin_nonzero [OF facc] m by simp
  then have "jdiv ?acc (Fin (real m)) = Fin 1" using m by (simp add: jdiv_def)
  moreover have "reduce_add (?n x # map ?n rest) = Inr ?acc" by (simp add: reduce_add_def)
  moreover have "length (?n x # map ?n rest) = m"
    using raw lraw by simp
  ultimately show ?thesis using table by blast
qed

theorem normalization_mean_one_witness:
  "\<exists>table acc. init_seasonals [Fin 1, Fin 2, Fin 3, Fin 6] 2 = Inr table \<and> length table = 2 \<and>
     reduce_add table = Inr acc \<and> jdiv acc (Fin (real 2)) = Fin 1"
proof -
  have h1: "seasonalAverage [Fin 1, Fin 2, Fin 3, Fin 6] 2 = Inr (Fin 3)" by code_simp
  have h2: "(3::real) \<noteq> 0" by simp
  show ?thesis using normalization_mean_one [OF h1 h2] by simp
qed

section \<open>Coefficients at the boundary\<close>

subsection \<open>All three coefficients zero\<close>

lemma jdiv_Fin_pos: "0 < c \<Longrightarrow> jdiv (Fin a) (Fin c) = Fin (a / c)"
  by (simp add: jdiv_def signed_zero_def)

lemma jmul_Fin_pos: "0 < c \<Longrightarrow> jmul (Fin b) (Fin c) = Fin (b * c)"
  by (simp add: jmul_def signed_zero_def)

lemma is_fin_jdiv_Fin: "s \<noteq> 0 \<Longrightarrow> is_fin (jdiv (Fin v) (Fin s))"
  by (simp add: is_fin_jdiv)

lemma zero_times_quotient: "s \<noteq> 0 \<Longrightarrow> is_zero (jmul (Fin 0) (jdiv (Fin v) (Fin s)))"
  by (simp add: is_zero_jmul_zero is_fin_jdiv_Fin)

lemma zero_times_Fin: "is_zero (jmul (Fin 0) (Fin x))"
  by (simp add: is_zero_jmul_zero)






subsection \<open>A linear series with unit seasonal factors\<close>

lemma hw_step_unit_coefficients:
  assumes "level st = Fin l" and "trend st = Fin t" and "seasonals st = replicate m (Fin 1)"
    and "0 < m" and "idx (map val data) i = Fin v" and "v \<noteq> 0"
  shows "level (hw_step data (Fin 1) (Fin 1) (Fin 0) m i st) = Fin v"
    and "trend (hw_step data (Fin 1) (Fin 1) (Fin 0) m i st) = Fin (v - l)"
    and "seasonals (hw_step data (Fin 1) (Fin 1) (Fin 0) m i st) = replicate m (Fin 1)"
proof -
  have sl: "idx (seasonals st) (i mod m) = Fin 1"
    using assms(3,4) by (simp add: idx_def)
  show l: "level (hw_step data (Fin 1) (Fin 1) (Fin 0) m i st) = Fin v"
    by (simp add: hw_step_level assms(1,2,5) sl jadd_Fin_zero zero_times_Fin)
  show "trend (hw_step data (Fin 1) (Fin 1) (Fin 0) m i st) = Fin (v - l)"
    by (simp add: hw_step_trend l assms(1,2) jadd_Fin_zero zero_times_Fin)
  have "seasonals (hw_step data (Fin 1) (Fin 1) (Fin 0) m i st) =
      (replicate m (Fin 1))[i mod m := Fin 1]"
    using assms(6)
    by (simp add: hw_step_seasonals l assms(3,5) sl [unfolded assms(3)] jadd_zero_Fin zero_times_quotient)
  also have "\<dots> = (replicate m (Fin 1))[i mod m := replicate m (Fin 1) ! (i mod m)]"
    using assms(4) by simp
  also have "\<dots> = replicate m (Fin 1)" by (rule list_update_id)
  finally show "seasonals (hw_step data (Fin 1) (Fin 1) (Fin 0) m i st) = replicate m (Fin 1)" .
qed

lemma trained_linear:
  assumes "\<forall>i<length data. val (data ! i) = Fin (a + b * real i)"
    and "\<forall>i<length data. a + b * real i \<noteq> 0"
    and "init_seasonals (map val data) m = Inr (replicate m (Fin 1))"
    and "m < length data" and "k \<le> length data"
  shows "\<exists>st. trained data (Fin 1) (Fin 1) (Fin 0) m k = Inr st \<and>
     level st = Fin (if k = 0 then a else a + b * real (k - 1)) \<and>
     trend st = Fin (if k = 1 then 0 else b) \<and> seasonals st = replicate m (Fin 1)"
  using assms(5)
proof (induction k)
  case 0
  from init_seasonals_Inr_length [OF assms(3)] have m: "0 < m" by simp
  have "idx (map val data) 0 = Fin a" "idx (map val data) m = Fin (a + b * real m)"
    using assms(1,4) by (auto simp: idx_def)
  then show ?case using m
    by (simp add: trained_0 [OF assms(3)] init_state_def jdiv_Fin_pos)
next
  case (Suc k)
  then obtain st where st: "trained data (Fin 1) (Fin 1) (Fin 0) m k = Inr st"
    and l: "level st = Fin (if k = 0 then a else a + b * real (k - 1))"
    and t: "trend st = Fin (if k = 1 then 0 else b)"
    and s: "seasonals st = replicate m (Fin 1)" by auto
  from trained_pos [OF st] have m: "0 < m" by simp
  have k: "k < length data" using Suc.prems by simp
  have v: "idx (map val data) k = Fin (a + b * real k)" using k assms(1) by (simp add: idx_def)
  have nz: "a + b * real k \<noteq> 0" using k assms(2) by simp
  have d: "a + b * real k - (if k = 0 then a else a + b * real (k - 1)) = (if Suc k = 1 then 0 else b)"
    by (cases k) (simp_all add: algebra_simps)
  from hw_step_unit_coefficients [OF l t s m v nz] trained_Suc [OF st]
  show ?case by (simp only: d) simp
qed

text \<open>
  Claim C6, as stated, at the series 1, 2, 3 with period 2 (its seasonal factors are both 1),
  \<open>alpha = beta = 1\<close> and \<open>gamma = 0\<close>: the fitted values are 1, 3, 4 where the line
  has 1, 2, 3; the two forecasts 4 and 5 are on the line.
\<close>

theorem linear_series_counterexample:
  "init_seasonals (map val linear3) 2 = Inr [Fin 1, Fin 1] \<and>
   holtWinters linear3 (Fin 1) (Fin 1) (Fin 0) 2 2 =
     Inr [\<lparr>pmonth = None, pval = Some (Fin 1), fitted = Fin 1\<rparr>,
          \<lparr>pmonth = None, pval = Some (Fin 2), fitted = Fin 3\<rparr>,
          \<lparr>pmonth = None, pval = Some (Fin 3), fitted = Fin 4\<rparr>,
          \<lparr>pmonth = Some ''Forecast 1'', pval = None, fitted = Fin 4\<rparr>,
          \<lparr>pmonth = Some ''Forecast 2'', pval = None, fitted = Fin 5\<rparr>]"
  by code_simp

text \<open>
  Claim C6, amended. For a series on the line \<open>a + b * i\<close> with nonzero values, longer
  than the period, whose initial seasonal factors are all 1, with \<open>alpha = beta = 1\<close> and
  \<open>gamma = 0\<close>: the first fitted value is the line's value \<open>a\<close>, the fitted value of
  every later step \<open>i\<close> is the line's value one step ahead, \<open>a + b * (i + 1)\<close>, and
  the \<open>k\<close>-th forecast is the line's value \<open>a + b * (n + k - 1)\<close>.
\<close>

theorem linear_series_extrapolation:
  assumes "\<forall>i<length data. val (data ! i) = Fin (a + b * real i)"
    and "\<forall>i<length data. a + b * real i \<noteq> 0"
    and "init_seasonals (map val data) m = Inr (replicate m (Fin 1))"
    and "m < length data"
  shows "\<exists>out. holtWinters data (Fin 1) (Fin 1) (Fin 0) m h = Inr out \<and>
     fitted (out ! 0) = Fin a \<and>
     (\<forall>i. 1 \<le> i \<and> i < length data \<longrightarrow> fitted (out ! i) = Fin (a + b * real (i + 1))) \<and>
     (\<forall>k. 1 \<le> k \<and> k \<le> h \<longrightarrow>
        fitted (out ! (length data + k - 1)) = Fin (a + b * real (length data + k - 1)))"
proof -
  note inv = trained_linear [OF assms]
  from inv [of "length data"]
  obtain stn where stn: "trained data (Fin 1) (Fin 1) (Fin 0) m (length data) = Inr stn"
    and ln: "level stn = Fin (if length data = 0 then a else a + b * real (length data - 1))"
    and tn: "trend stn = Fin (if length data = 1 then 0 else b)"
    and sn: "seasonals stn = replicate m (Fin 1)" by auto
  from trained_pos [OF stn] have m: "0 < m" by simp
  with assms(4) have n2: "2 \<le> length data" by simp
  from holtWinters_Inr [OF stn, of h]
  obtain out where out: "holtWinters data (Fin 1) (Fin 1) (Fin 0) m h = Inr out"
    and fc: "\<forall>j<h. out ! (length data + j) =
        \<lparr>pmonth = Some (''Forecast '' @ show_nat (j + 1)), pval = None,
         fitted = jmul (jadd (level stn) (jmul (trend stn) (Fin (real (j + 1)))))
                       (idx (seasonals stn) ((length data + j) mod m))\<rparr>"
    by blast
  have fit: "fitted (out ! i) = Fin (a + b * real i + (if i = 0 then 0 else b))"
    if i: "i < length data" for i
  proof -
    from inv [of "Suc i"] i
    obtain st where st: "trained data (Fin 1) (Fin 1) (Fin 0) m (Suc i) = Inr st"
      and l: "level st = Fin (a + b * real i)"
      and t: "trend st = Fin (if i = 0 then 0 else b)"
      and s: "seasonals st = replicate m (Fin 1)" by auto
    have "out ! i = results stn ! i" by (rule holtWinters_nth_fitted [OF stn out i])
    with trained_results_point [OF stn i] st
    have "fitted (out ! i) = jmul (jadd (level st) (trend st)) (idx (seasonals st) (i mod m))"
      by auto
    also have "idx (seasonals st) (i mod m) = Fin 1" using m by (simp add: s idx_def)
    finally show ?thesis by (simp add: l t)
  qed
  have "0 < length data" using n2 by linarith
  from fit [OF this] have f0: "fitted (out ! 0) = Fin a" by simp
  have fi: "fitted (out ! i) = Fin (a + b * real (i + 1))" if "1 \<le> i \<and> i < length data" for i
    using fit [of i] that by (simp add: algebra_simps)
  have ff: "fitted (out ! (length data + k - 1)) = Fin (a + b * real (length data + k - 1))"
    if k: "1 \<le> k \<and> k \<le> h" for k
  proof -
    obtain j where j: "k = Suc j" using k by (cases k) auto
    then have jh: "j < h" using k by simp
    have "idx (seasonals stn) ((length data + j) mod m) = Fin 1" using m by (simp add: sn idx_def)
    moreover have "level stn = Fin (a + b * real (length data - 1))" "trend stn = Fin b"
      using ln tn n2 by auto
    ultimately have "fitted (out ! (length data + j)) =
        Fin (a + b * real (length data - 1) + b * real (j + 1))"
      using fc jh by (simp add: jmul_Fin_pos)
    moreover have "a + b * real (length data - 1) + b * real (j + 1) = a + b * real (length data + j)"
      using n2 by (simp add: algebra_simps of_nat_diff)
    ultimately show ?thesis using j by simp
  qed
  from out f0 fi ff show ?thesis by blast
qed

theorem linear_series_extrapolation_witness:
  "\<exists>out. holtWinters linear3 (Fin 1) (Fin 1) (Fin 0) 2 2 = Inr out \<and>
     fitted (out ! 0) = Fin 1 \<and> fitted (out ! 2) = Fin (1 + 1 * real (2 + 1)) \<and>
     fitted (out ! (length linear3 + 2 - 1)) = Fin (1 + 1 * real (length linear3 + 2 - 1))"
proof -
  have h1: "\<forall>i<length linear3. val (linear3 ! i) = Fin (1 + 1 * real i)"
    by (simp add: linear3_def less_Suc_eq)
  have h2: "\<forall>i<length linear3. 1 + 1 * real i \<noteq> 0"
    by (simp add: add_nonneg_eq_0_iff)
  have h3: "init_seasonals (map val linear3) 2 = Inr (replicate 2 (Fin 1))" by code_simp
  have h4: "2 < length linear3" by (simp add: linear3_def)
  from linear_series_extrapolation [OF h1 h2 h3 h4, of 2]
  obtain out where o: "holtWinters linear3 (Fin 1) (Fin 1) (Fin 0) 2 2 = Inr out"
    and f0: "fitted (out ! 0) = Fin 1"
    and fi: "\<forall>i. 1 \<le> i \<and> i < length linear3 \<longrightarrow> fitted (out ! i) = Fin (1 + 1 * real (i + 1))"
    and ff: "\<forall>k. 1 \<le> k \<and> k \<le> 2 \<longrightarrow>
        fitted (out ! (length linear3 + k - 1)) = Fin (1 + 1 * real (length linear3 + k - 1))"
    by blast
  have "fitted (out ! 2) = Fin (1 + 1 * real (2 + 1))"
    using fi [rule_format, of 2] h4 by simp
  moreover have "fitted (out ! (length linear3 + 2 - 1)) = Fin (1 + 1 * real (length linear3 + 2 - 1))"
    using ff [rule_format, of 2] by simp
  ultimately show ?thesis using o f0 by blast
qed

section \<open>Inputs the specification classes as errors\<close>

subsection \<open>A series no longer than the period\<close>










subsection \<open>A division by zero in the recurrence\<close>





section \<open>Determinism\<close>

lemma cells_store [simp]: "cells (store r c w) = (cells w)(r \<mapsto> c)"
  and next_ref_store [simp]: "next_ref (store r c w) = next_ref w"
  and random_seed_store [simp]: "random_seed (store r c w) = random_seed w"
  by (simp_all add: store_def)

lemma store_store [simp]: "store r c (store r c' w) = store r c w"
  by (simp add: store_def)

lemma store_same: "cells w r = Some c \<Longrightarrow> store r c w = w"
  by (simp add: store_def fun_upd_idem)

lemma store_twice:
  "r \<noteq> r' \<Longrightarrow> store r x (store r' y (store r x' (store r' y' w))) = store r x (store r' y w)"
  by (simp add: store_def fun_upd_twist)

lemma get_num_cell: "cells w r = Some (NumArray xs) \<Longrightarrow> get_num w r i = idx xs i"
  by (simp add: get_num_def)

lemma set_num_cell:
  "cells w r = Some (NumArray xs) \<Longrightarrow> set_num r i v w = store r (NumArray (xs[i := v])) w"
  by (simp add: set_num_def)

lemma push_point_cell:
  "cells w r = Some (PointArray ps) \<Longrightarrow> push_point r p w = store r (PointArray (ps @ [p])) w"
  by (simp add: push_point_def)

lemma get_obs_cell: "cells w r = Some (ObsArray ds) \<Longrightarrow> get_obs w r i = ds ! i"
  by (simp add: get_obs_def)

lemma phase_loop_h_eq:
  "cells w series_ref = Some (NumArray xs) \<Longrightarrow>
   phase_loop_h w series_ref (length xs) m j acc = phase_loop xs m j acc"
proof (induction xs m j acc rule: phase_loop.induct)
  case (1 series m j sum_acc count)
  show ?case
  proof (cases "0 < m \<and> j < length series")
    case True
    with "1.IH" [OF True "1.prems"] show ?thesis
      by (simp add: phase_loop.simps [of series m j] phase_loop_h.simps [of w series_ref "length series" m j]
          get_num_cell [OF "1.prems"])
  next
    case False
    then show ?thesis
      by (auto simp: phase_loop.simps [of series m j] phase_loop_h.simps [of w series_ref "length series" m j])
  qed
qed

lemma seasonal_init_fold:
  assumes "series_ref \<noteq> seasonals_ref"
  shows "cells w series_ref = Some (NumArray xs) \<Longrightarrow> cells w seasonals_ref = Some (NumArray zs) \<Longrightarrow>
    fold (\<lambda>i w. case phase_loop_h w series_ref (length xs) m i (Fin 0, 0) of
                 (sum_acc, count) \<Rightarrow> set_num seasonals_ref i (jdiv sum_acc (Fin (real count))) w) is w =
    store seasonals_ref (NumArray (fold (\<lambda>i s. s[i := phase_average xs m i]) is zs)) w"
proof (induction "is" arbitrary: w zs)
  case Nil
  then show ?case by (simp add: store_same)
next
  case (Cons a "is")
  let ?w = "store seasonals_ref (NumArray (zs[a := phase_average xs m a])) w"
  have step: "(case phase_loop_h w series_ref (length xs) m a (Fin 0, 0) of
                 (sum_acc, count) \<Rightarrow> set_num seasonals_ref a (jdiv sum_acc (Fin (real count))) w) = ?w"
    by (simp add: phase_loop_h_eq [OF Cons.prems(1)] phase_average_def
        set_num_cell [OF Cons.prems(2)] split: prod.splits)
  have c1: "cells ?w series_ref = Some (NumArray xs)" using assms Cons.prems(1) by simp
  have c2: "cells ?w seasonals_ref = Some (NumArray (zs[a := phase_average xs m a]))" by simp
  show ?case
    by (simp add: step Cons.IH [OF c1 c2])
qed

lemma normalize_list_step:
  assumes "k < length ys"
  shows "(map f (take k ys) @ drop k ys)[k := f (ys ! k)] = map f (take (Suc k) ys) @ drop (Suc k) ys"
proof -
  have "drop k ys = ys ! k # drop (Suc k) ys" using assms by (simp add: Cons_nth_drop_Suc)
  then show ?thesis using assms
    by (simp add: list_update_append take_Suc_conv_app_nth)
qed

lemma normalize_fold:
  assumes "cells w r = Some (NumArray ys)" and "k \<le> length ys"
  shows "fold (\<lambda>i w. set_num r i (jdiv (get_num w r i) avg) w) [0..<k] w =
     store r (NumArray (map (\<lambda>v. jdiv v avg) (take k ys) @ drop k ys)) w"
  using assms(2)
proof (induction k)
  case 0
  then show ?case using assms(1) by (simp add: store_same)
next
  case (Suc k)
  let ?L = "map (\<lambda>v. jdiv v avg) (take k ys) @ drop k ys"
  let ?w = "store r (NumArray ?L) w"
  have k: "k < length ys" using Suc.prems by simp
  have IH: "fold (\<lambda>i w. set_num r i (jdiv (get_num w r i) avg) w) [0..<k] w = ?w"
    using Suc.IH k by simp
  have c: "cells ?w r = Some (NumArray ?L)" by simp
  have g: "get_num ?w r k = ys ! k"
    using k by (simp add: get_num_cell [OF c] idx_def nth_append)
  have "set_num r k (jdiv (get_num ?w r k) avg) ?w = store r (NumArray (?L[k := jdiv (ys ! k) avg])) w"
    by (simp add: set_num_cell [OF c] g)
  also have "?L[k := jdiv (ys ! k) avg] =
      map (\<lambda>v. jdiv v avg) (take (Suc k) ys) @ drop (Suc k) ys"
    by (rule normalize_list_step [OF k, of "\<lambda>v. jdiv v avg"])
  finally show ?case
    by (simp add: IH)
qed

lemma hw_step_h_sim:
  assumes "cells w data_ref = Some (ObsArray ds)"
    and "cells w series_ref = Some (NumArray (map val ds))"
    and "cells w seasonals_ref = Some (NumArray (seasonals st))"
    and "cells w results_ref = Some (PointArray (results st))"
    and "seasonals_ref \<noteq> results_ref" and "seasonals_ref \<noteq> series_ref" and "seasonals_ref \<noteq> data_ref"
    and "results_ref \<noteq> data_ref"
  shows "hw_step_h data_ref series_ref seasonals_ref results_ref alpha beta gamma m i (level st, trend st, w) =
     (level (hw_step ds alpha beta gamma m i st), trend (hw_step ds alpha beta gamma m i st),
      store results_ref (PointArray (results (hw_step ds alpha beta gamma m i st)))
        (store seasonals_ref (NumArray (seasonals (hw_step ds alpha beta gamma m i st))) w))"
proof -
  let ?v = "idx (map val ds) i"
  let ?l = "jadd (jmul alpha (jdiv ?v (idx (seasonals st) (i mod m))))
                 (jmul (jsub (Fin 1) alpha) (jadd (level st) (trend st)))"
  let ?t = "jadd (jmul beta (jsub ?l (level st))) (jmul (jsub (Fin 1) beta) (trend st))"
  let ?s = "(seasonals st)[i mod m :=
      jadd (jmul gamma (jdiv ?v ?l)) (jmul (jsub (Fin 1) gamma) (idx (seasonals st) (i mod m)))]"
  let ?p = "\<lparr>pmonth = month (ds ! i), pval = Some (val (ds ! i)),
            fitted = jmul (jadd ?l ?t) (idx ?s (i mod m))\<rparr>"
  let ?w1 = "store seasonals_ref (NumArray ?s) w"
  have pure: "hw_step ds alpha beta gamma m i st =
      \<lparr>level = ?l, trend = ?t, seasonals = ?s, results = results st @ [?p]\<rparr>"
    by (simp add: hw_step_def Let_def)
  have d1: "cells ?w1 data_ref = Some (ObsArray ds)" using assms(1,7) by simp
  have s1: "cells ?w1 seasonals_ref = Some (NumArray ?s)" by simp
  have r1: "cells ?w1 results_ref = Some (PointArray (results st))" using assms(4,5) by simp
  have "hw_step_h data_ref series_ref seasonals_ref results_ref alpha beta gamma m i (level st, trend st, w) =
      (?l, ?t, store results_ref (PointArray (results st @ [?p])) ?w1)"
    unfolding hw_step_h_def
    by (simp only: prod.case Let_def get_num_cell [OF assms(2)] get_num_cell [OF assms(3)]
        set_num_cell [OF assms(3)] get_obs_cell [OF d1] get_num_cell [OF s1] push_point_cell [OF r1])
  then show ?thesis by (simp only: pure hw_state.simps)
qed

lemma recurrence_h_fold:
  assumes "cells w data_ref = Some (ObsArray ds)"
    and "cells w series_ref = Some (NumArray (map val ds))"
    and "cells w seasonals_ref = Some (NumArray (seasonals st))"
    and "cells w results_ref = Some (PointArray (results st))"
    and "seasonals_ref \<noteq> results_ref" and "seasonals_ref \<noteq> series_ref" and "seasonals_ref \<noteq> data_ref"
    and "results_ref \<noteq> data_ref" and "results_ref \<noteq> series_ref"
  shows "fold (hw_step_h data_ref series_ref seasonals_ref results_ref alpha beta gamma m) [0..<k]
           (level st, trend st, w) =
     (level (recurrence ds alpha beta gamma m k st), trend (recurrence ds alpha beta gamma m k st),
      store results_ref (PointArray (results (recurrence ds alpha beta gamma m k st)))
        (store seasonals_ref (NumArray (seasonals (recurrence ds alpha beta gamma m k st))) w))"
proof (induction k)
  case 0
  show ?case by (simp add: store_same assms(3,4,5))
next
  case (Suc k)
  let ?st = "recurrence ds alpha beta gamma m k st"
  let ?w = "store results_ref (PointArray (results ?st)) (store seasonals_ref (NumArray (seasonals ?st)) w)"
  have c1: "cells ?w data_ref = Some (ObsArray ds)" using assms(1,7,8) by simp
  have c2: "cells ?w series_ref = Some (NumArray (map val ds))" using assms(2,6,9) by simp
  have c3: "cells ?w seasonals_ref = Some (NumArray (seasonals ?st))" using assms(5) by simp
  have c4: "cells ?w results_ref = Some (PointArray (results ?st))" by simp
  have r: "results_ref \<noteq> seasonals_ref" using assms(5) by simp
  show ?case
    by (simp add: Suc.IH recurrence_Suc hw_step_h_sim [OF c1 c2 c3 c4 assms(5,6,7,8)]
        store_twice [OF r])
qed

lemma forecast_h_fold:
  assumes "seasonals_ref \<noteq> results_ref"
  shows "cells w seasonals_ref = Some (NumArray ss) \<Longrightarrow> cells w results_ref = Some (PointArray ps) \<Longrightarrow>
    fold (forecast_step_h n m seasonals_ref results_ref l t) is w =
    store results_ref (PointArray (ps @ map (\<lambda>i.
        \<lparr>pmonth = Some (''Forecast '' @ show_nat (i + 1)), pval = None,
         fitted = jmul (jadd l (jmul t (Fin (real (i + 1))))) (idx ss ((n + i) mod m))\<rparr>) is)) w"
proof (induction "is" arbitrary: w ps)
  case Nil
  then show ?case by (simp add: store_same)
next
  case (Cons a "is")
  let ?p = "\<lparr>pmonth = Some (''Forecast '' @ show_nat (a + 1)), pval = None,
         fitted = jmul (jadd l (jmul t (Fin (real (a + 1))))) (idx ss ((n + a) mod m))\<rparr>"
  let ?w = "store results_ref (PointArray (ps @ [?p])) w"
  have step: "forecast_step_h n m seasonals_ref results_ref l t a w = ?w"
    by (simp add: forecast_step_h_def Let_def get_num_cell [OF Cons.prems(1)]
        push_point_cell [OF Cons.prems(2)])
  have c1: "cells ?w seasonals_ref = Some (NumArray ss)" using assms Cons.prems(1) by simp
  have c2: "cells ?w results_ref = Some (PointArray (ps @ [?p]))" by simp
  let ?g = "\<lambda>i. \<lparr>pmonth = Some (''Forecast '' @ show_nat (i + 1)), pval = None,
         fitted = jmul (jadd l (jmul t (Fin (real (i + 1))))) (idx ss ((n + i) mod m))\<rparr>"
  have "fold (forecast_step_h n m seasonals_ref results_ref l t) (a # is) w =
      fold (forecast_step_h n m seasonals_ref results_ref l t) is ?w"
    by (simp only: fold_simps o_apply step)
  also have "\<dots> = store results_ref (PointArray ((ps @ [?p]) @ map ?g is)) ?w"
    by (rule Cons.IH [OF c1 c2])
  also have "\<dots> = store results_ref (PointArray (ps @ map ?g (a # is))) w"
    by simp
  finally show ?case .
qed

lemma alloc_fresh:
  assumes "wf_world w" and "alloc c w = (r, w')"
  shows "r = next_ref w" and "cells w r = None" and "cells w' = (cells w)(r \<mapsto> c)"
    and "next_ref w' = Suc (next_ref w)" and "random_seed w' = random_seed w" and "wf_world w'"
  using assms by (auto simp: alloc_def wf_world_def)

lemma wf_world_store: "wf_world w \<Longrightarrow> r < next_ref w \<Longrightarrow> wf_world (store r c w)"
  by (auto simp: wf_world_def)

lemma wf_world_used: "wf_world w \<Longrightarrow> cells w r = Some c \<Longrightarrow> r < next_ref w"
  by (auto simp: wf_world_def) (metis not_le_imp_less option.distinct(1))

lemma new_array_cases:
  "(2 ^ 32 \<le> m \<and> new_array m = Inl RangeError) \<or>
   (m < 2 ^ 32 \<and> new_array m = Inr (replicate m (Fin 0)))"
  by (simp add: new_array_def)

lemma holtWinters_h_refines:
  assumes "wf_world w" and "cells w data_ref = Some (ObsArray ds)"
  shows "returned (holtWinters_h data_ref alpha beta gamma m h w) = holtWinters ds alpha beta gamma m h \<and>
     (\<forall>a<next_ref w. cells (snd (holtWinters_h data_ref alpha beta gamma m h w)) a = cells w a) \<and>
     wf_world (snd (holtWinters_h data_ref alpha beta gamma m h w)) \<and>
     random_seed (snd (holtWinters_h data_ref alpha beta gamma m h w)) = random_seed w"
proof -
  let ?xs = "map val ds"
  obtain series_ref w1 where a1: "alloc (NumArray ?xs) w = (series_ref, w1)"
    by (cases "alloc (NumArray ?xs) w")
  note f1 = alloc_fresh [OF assms(1) a1]
  have dr: "data_ref < next_ref w" by (rule wf_world_used [OF assms])
  have fr1: "\<forall>a<next_ref w. cells w1 a = cells w a" by (simp add: f1(3) f1(1))
  consider (big) "2 ^ 32 \<le> m" "new_array m = Inl RangeError"
    | (zero) "m = 0" "new_array m = Inr []"
    | (ok) "0 < m" "m < 2 ^ 32" "new_array m = Inr (replicate m (Fin 0))"
    using new_array_cases [of m] by (cases "m = 0") auto
  then show ?thesis
  proof cases
    case big
    have "holtWinters_h data_ref alpha beta gamma m h w = (Inl RangeError, w1)"
      by (simp add: holtWinters_h_def Let_def assms(2) a1 big(2))
    then show ?thesis
      using fr1 f1(5,6) by (simp add: returned_def holtWinters_out_of_range [OF big(1)])
  next
    case zero
    obtain seasonals_ref w2 where a2: "alloc (NumArray []) w1 = (seasonals_ref, w2)"
      by (cases "alloc (NumArray []) w1")
    note f2 = alloc_fresh [OF f1(6) a2]
    have "holtWinters_h data_ref alpha beta gamma m h w = (Inl TypeError, w2)"
      by (simp add: holtWinters_h_def Let_def assms(2) a1 zero(1) new_array_def a2
          seasonal_init_h_def reduce_add_h_def f2(3) reduce_add_def)
    moreover have "\<forall>a<next_ref w. cells w2 a = cells w a"
      using fr1 by (simp add: f2(3) f2(1) f1(4))
    ultimately show ?thesis
      using f2(5,6) f1(5) by (simp add: returned_def zero(1) holtWinters_zero_period)
  next
    case ok
    obtain seasonals_ref w2 where a2: "alloc (NumArray (replicate m (Fin 0))) w1 = (seasonals_ref, w2)"
      by (cases "alloc (NumArray (replicate m (Fin 0))) w1")
    note f2 = alloc_fresh [OF f1(6) a2]
    have ne12: "series_ref \<noteq> seasonals_ref" by (simp add: f1(1) f2(1) f1(4))
    have ned1: "series_ref \<noteq> data_ref" and ned2: "seasonals_ref \<noteq> data_ref"
      using dr by (simp_all add: f1(1) f2(1) f1(4))
    have c2_series: "cells w2 series_ref = Some (NumArray ?xs)"
      using ne12 by (simp add: f2(3) f1(3))
    have c2_seasonals: "cells w2 seasonals_ref = Some (NumArray (replicate m (Fin 0)))"
      by (simp add: f2(3))
    have c2_data: "cells w2 data_ref = Some (ObsArray ds)"
      using ned1 ned2 assms(2) by (simp add: f2(3) f1(3))
    let ?raw = "phase_averages ?xs m (replicate m (Fin 0))"
    let ?w3 = "store seasonals_ref (NumArray ?raw) w2"
    have w3: "seasonal_init_h series_ref seasonals_ref (length ds) m w2 = ?w3"
      using seasonal_init_fold [OF ne12 c2_series c2_seasonals, of m "[0..<m]"]
      by (simp add: seasonal_init_h_def phase_averages_def)
    have raw: "raw_seasonals ?xs m = Inr ?raw" by (rule raw_seasonals_in_range [OF ok(2)])
    have lraw: "length ?raw = m" by simp
    with ok(1) obtain x rest where xr: "?raw = x # rest" by (cases ?raw) auto
    let ?acc = "foldl jadd x rest"
    let ?avg = "jdiv ?acc (Fin (real m))"
    let ?table = "map (\<lambda>v. jdiv v ?avg) ?raw"
    have red: "reduce_add_h ?w3 seasonals_ref = Inr ?acc"
      by (simp add: reduce_add_h_def reduce_add_def xr)
    have table: "init_seasonals ?xs m = Inr ?table"
      by (simp add: init_seasonals_def seasonalAverage_def raw reduce_add_def xr)
    let ?w4 = "store seasonals_ref (NumArray ?table) w2"
    have c3: "cells ?w3 seasonals_ref = Some (NumArray ?raw)" by simp
    have w4: "normalize_h seasonals_ref m ?avg ?w3 = ?w4"
      using normalize_fold [OF c3, of m ?avg] lraw by (simp add: normalize_h_def)
    have c4_series: "cells ?w4 series_ref = Some (NumArray ?xs)" using ne12 c2_series by simp
    have wf4: "wf_world ?w4"
      by (rule wf_world_store [OF f2(6)]) (simp add: f2(4) f2(1))
    obtain results_ref w5 where a3: "alloc (PointArray []) ?w4 = (results_ref, w5)"
      by (cases "alloc (PointArray []) ?w4")
    note f3 = alloc_fresh [OF wf4 a3]
    have rr: "results_ref = Suc (Suc (next_ref w))" by (simp add: f3(1) f2(4) f1(4))
    have ne3: "seasonals_ref \<noteq> results_ref" "results_ref \<noteq> data_ref" "results_ref \<noteq> series_ref"
      using dr by (simp_all add: rr f1(1) f2(1) f1(4))
    let ?st0 = "init_state ?xs m ?table"
    have c5_data: "cells w5 data_ref = Some (ObsArray ds)"
      using ne3 ned2 c2_data by (simp add: f3(3))
    have c5_series: "cells w5 series_ref = Some (NumArray ?xs)"
      using ne3 c4_series by (simp add: f3(3))
    have c5_seasonals: "cells w5 seasonals_ref = Some (NumArray (seasonals ?st0))"
      using ne3 by (simp add: f3(3) init_state_def)
    have c5_results: "cells w5 results_ref = Some (PointArray (results ?st0))"
      by (simp add: f3(3) init_state_def)
    let ?stn = "recurrence ds alpha beta gamma m (length ds) ?st0"
    let ?w6 = "store results_ref (PointArray (results ?stn))
                 (store seasonals_ref (NumArray (seasonals ?stn)) w5)"
    have lv: "get_num ?w4 series_ref 0 = level ?st0"
      by (simp add: get_num_cell [OF c4_series] init_state_def)
    have tr: "jdiv (jsub (get_num ?w4 series_ref m) (level ?st0)) (Fin (real m)) = trend ?st0"
      by (simp add: get_num_cell [OF c4_series] init_state_def)
    have rec: "fold (hw_step_h data_ref series_ref seasonals_ref results_ref alpha beta gamma m)
          [0..<length ds] (level ?st0, trend ?st0, w5) = (level ?stn, trend ?stn, ?w6)"
      by (rule recurrence_h_fold [OF c5_data c5_series c5_seasonals c5_results ne3(1)
            ne12 [symmetric] ned2 ne3(2) ne3(3)])
    have c6_seasonals: "cells ?w6 seasonals_ref = Some (NumArray (seasonals ?stn))"
      using ne3(1) by simp
    have c6_results: "cells ?w6 results_ref = Some (PointArray (results ?stn))" by simp
    let ?out = "results ?stn @ map (\<lambda>i.
        \<lparr>pmonth = Some (''Forecast '' @ show_nat (i + 1)), pval = None,
         fitted = jmul (jadd (level ?stn) (jmul (trend ?stn) (Fin (real (i + 1)))))
                    (idx (seasonals ?stn) ((length ds + i) mod m))\<rparr>) [0..<h]"
    let ?w7 = "store results_ref (PointArray ?out) ?w6"
    have fc: "fold (forecast_step_h (length ds) m seasonals_ref results_ref (level ?stn) (trend ?stn))
          [0..<h] ?w6 = ?w7"
      by (rule forecast_h_fold [OF ne3(1) c6_seasonals c6_results])
    have run: "holtWinters_h data_ref alpha beta gamma m h w = (Inr results_ref, ?w7)"
      unfolding holtWinters_h_def
      by (simp only: assms(2) a1 ok(3) a2 w3 red w4 lv tr a3 rec fc Let_def
          option.case cell.case sum.case prod.case)
    have pure: "holtWinters ds alpha beta gamma m h = Inr ?out"
      by (simp add: holtWinters_trained trained_def table)
    have frame: "\<forall>a<next_ref w. cells ?w7 a = cells w a"
      using fr1 by (simp add: rr f3(3) f2(3) f2(1) f1(4))
    have wf7: "wf_world ?w7"
      using f3(6) by (auto simp: wf_world_def rr f3(4) f2(1) f1(4) f2(4))
    have seed: "random_seed ?w7 = random_seed w"
      by (simp add: f3(5) f2(5) f1(5))
    show ?thesis
      using frame wf7 seed by (simp add: run pure returned_def)
  qed
qed

text \<open>
  Claim C9. Two calls with identical series, coefficients, seasonal period and forecast
  horizon return identical output sequences, whatever else the two worlds hold (other
  arrays, the state of the random generator, the place of the input array): nothing but the
  arguments is read. The call leaves its input array and the random generator as they
  were, so that a second call after the first returns the same output again.
\<close>

theorem holtWinters_deterministic:
  assumes "wf_world w" and "cells w data_ref = Some (ObsArray ds)"
    and "wf_world w'" and "cells w' data_ref' = Some (ObsArray ds)"
    and "first_call = holtWinters_h data_ref alpha beta gamma m h w"
  shows "returned (holtWinters_h data_ref' alpha beta gamma m h w') = returned first_call \<and>
     cells (snd first_call) data_ref = Some (ObsArray ds) \<and>
     random_seed (snd first_call) = random_seed w \<and>
     returned (holtWinters_h data_ref alpha beta gamma m h (snd first_call)) = returned first_call"
proof -
  note r1 = holtWinters_h_refines [OF assms(1,2), of alpha beta gamma m h, folded assms(5)]
  note r2 = holtWinters_h_refines [OF assms(3,4), of alpha beta gamma m h]
  have used: "data_ref < next_ref w" by (rule wf_world_used [OF assms(1,2)])
  from r1 used have kept: "cells (snd first_call) data_ref = Some (ObsArray ds)"
    by (simp add: assms(2))
  from r1 have wf1: "wf_world (snd first_call)" by simp
  note r3 = holtWinters_h_refines [OF wf1 kept, of alpha beta gamma m h]
  from r1 r2 r3 kept show ?thesis by simp
qed

theorem holtWinters_deterministic_witness:
  "returned (holtWinters_h 3 (Fin (1/2)) (Fin (2/5)) (Fin (3/5)) 1 1 world_b) =
     returned (holtWinters_h 0 (Fin (1/2)) (Fin (2/5)) (Fin (3/5)) 1 1 world_a) \<and>
   cells (snd (holtWinters_h 0 (Fin (1/2)) (Fin (2/5)) (Fin (3/5)) 1 1 world_a)) 0 =
     Some (ObsArray pair12) \<and>
   random_seed (snd (holtWinters_h 0 (Fin (1/2)) (Fin (2/5)) (Fin (3/5)) 1 1 world_a)) = 7 \<and>
   returned (holtWinters_h 0 (Fin (1/2)) (Fin (2/5)) (Fin (3/5)) 1 1
       (snd (holtWinters_h 0 (Fin (1/2)) (Fin (2/5)) (Fin (3/5)) 1 1 world_a))) =
     returned (holtWinters_h 0 (Fin (1/2)) (Fin (2/5)) (Fin (3/5)) 1 1 world_a)"
proof -
  have h1: "wf_world world_a" by (simp add: wf_world_def world_a_def)
  have h2: "cells world_a 0 = Some (ObsArray pair12)" by (simp add: world_a_def)
  have h3: "wf_world world_b" by (simp add: wf_world_def world_b_def)
  have h4: "cells world_b 3 = Some (ObsArray pair12)" by (simp add: world_b_def)
  have s: "random_seed world_a = 7" by (simp add: world_a_def)
  show ?thesis
    using holtWinters_deterministic [OF h1 h2 h3 h4 refl, of "Fin (1/2)" "Fin (2/5)" "Fin (3/5)" 1 1]
    by (simp only: s) 
qed

section \<open>Errors come from the period alone\<close>


















end
